theory Spec2Isabelle
  imports Complex_Main "HOL-Library.Char_ord" "HOL-Library.List_Lexorder"
    "HOL-Library.Product_Lexorder"
begin

section \<open>Data model\<close>

text \<open>
  The scripts work on pandas data frames read from CSV exports. A frame is a list of
  rows; a cell that pandas holds as NaN (or NaT for a date) is \<open>None\<close>. Amounts are
  Python floats; in the Python part they are modelled as exact real numbers, so the
  statements about it are about the arithmetic the code asks for, not about binary
  rounding. The tolerance test of the page's script is modelled with the rounding of
  IEEE doubles, because its boundary depends on it.
\<close>

record timestamp =
  year :: int
  month :: int
  day :: int

datatype error =
    KeyError string
  | ValueError string
  | FileNotFoundError string

text \<open>
  A CSV cell before the column is converted. The pandas parsers are library code; a
  cell records what they make of its text: \<open>NumText r\<close> is text that
  \<^verbatim>\<open>pd.to_numeric\<close> reads as \<open>r\<close>, \<open>DateText t\<close> is text that \<^verbatim>\<open>pd.to_datetime\<close> reads
  as \<open>t\<close> under the format the loader passes, \<open>NumEmpty\<close>/\<open>DateEmpty\<close> is an empty
  cell, and \<open>NumBad\<close>/\<open>DateBad\<close> is text the parser cannot read.
\<close>

datatype num_cell = NumText real | NumEmpty | NumBad

datatype date_cell = DateText timestamp | DateEmpty | DateBad

record csv_row =
  raw_Date :: date_cell
  raw_Transaction_Date :: date_cell
  raw_Amount :: num_cell
  raw_Debit :: num_cell
  raw_Credit :: num_cell
  raw_Description :: "string option"
  raw_Category :: "string option"

text \<open>
  A file as \<^verbatim>\<open>pd.read_csv\<close> returns it: its name without extension, its header, its
  rows. A cell of a column that is not in the header is never read by the model.
\<close>

record csv_file =
  stem :: string
  columns :: "string list"
  rows :: "csv_row list"

text \<open>A row of the frame the loaders return.\<close>

record row =
  Date :: "timestamp option"
  Amount :: "real option"
  Description :: "string option"
  Category :: "string option"
  Source :: "string option"

subsection \<open>The pandas conversions the loaders call\<close>

text \<open>\<^verbatim>\<open>pd.to_numeric(col, errors='coerce')\<close>: what does not parse becomes NaN.\<close>

fun to_numeric :: "num_cell \<Rightarrow> real option" where
  "to_numeric (NumText r) = Some r"
| "to_numeric NumEmpty = None"
| "to_numeric NumBad = None"

text \<open>
  \<^verbatim>\<open>pd.to_datetime(col, format=...)\<close> with the default \<^verbatim>\<open>errors='raise'\<close>: an empty cell
  becomes NaT, text that does not match the format raises ValueError for the whole
  column.
\<close>

fun to_datetime :: "date_cell list \<Rightarrow> error + timestamp option list" where
  "to_datetime [] = Inr []"
| "to_datetime (DateBad # cs) = Inl (ValueError ''time data does not match format'')"
| "to_datetime (DateText t # cs) =
     (case to_datetime cs of Inl e \<Rightarrow> Inl e | Inr ts \<Rightarrow> Inr (Some t # ts))"
| "to_datetime (DateEmpty # cs) =
     (case to_datetime cs of Inl e \<Rightarrow> Inl e | Inr ts \<Rightarrow> Inr (None # ts))"

text \<open>What the conversion makes of one cell when it does not raise.\<close>

fun cell_date :: "date_cell \<Rightarrow> timestamp option" where
  "cell_date (DateText t) = Some t"
| "cell_date DateEmpty = None"
| "cell_date DateBad = None"

text \<open>\<^verbatim>\<open>.fillna(0)\<close>\<close>

definition fillna :: "real \<Rightarrow> real option \<Rightarrow> real" where
  "fillna d v = (case v of None \<Rightarrow> d | Some x \<Rightarrow> x)"

text \<open>A text column of a file: NaN for every row when the file has no such column
  (what \<^verbatim>\<open>pd.concat\<close> fills in).\<close>

definition text_col :: "csv_file \<Rightarrow> string \<Rightarrow> (csv_row \<Rightarrow> string option) \<Rightarrow> csv_row \<Rightarrow> string option" where
  "text_col f c get r = (if c \<in> set (columns f) then get r else None)"

text \<open>Column sums skip NaN (\<^verbatim>\<open>skipna=True\<close>); the sum of no values is 0.\<close>

definition present :: "real option list \<Rightarrow> real list" where
  "present vs = concat (map (\<lambda>v. case v of None \<Rightarrow> [] | Some x \<Rightarrow> [x]) vs)"

definition col_sum :: "real option list \<Rightarrow> real" where
  "col_sum vs = sum_list (present vs)"

text \<open>\<^verbatim>\<open>.mean()\<close>: NaN when there is no value.\<close>

definition col_mean :: "real option list \<Rightarrow> real option" where
  "col_mean vs = (let xs = present vs in
     if xs = [] then None else Some (sum_list xs / real (length xs)))"

text \<open>\<^verbatim>\<open>df[df['Amount'] > 0]\<close>: a comparison with NaN is false.\<close>

definition amount_gt0 :: "row \<Rightarrow> bool" where
  "amount_gt0 r = (case Amount r of None \<Rightarrow> False | Some a \<Rightarrow> a > 0)"

definition amount_lt0 :: "row \<Rightarrow> bool" where
  "amount_lt0 r = (case Amount r of None \<Rightarrow> False | Some a \<Rightarrow> a < 0)"

subsection \<open>Rounding\<close>

text \<open>
  \<^verbatim>\<open>DataFrame.round(n)\<close> rounds to \<open>n\<close> decimals, halves to the even neighbour.
  JavaScript's \<^verbatim>\<open>Math.round\<close> rounds halves up.
\<close>

definition round_half_even :: "real \<Rightarrow> int" where
  "round_half_even x = (let f = \<lfloor>x\<rfloor>; d = x - of_int f in
     if d < 1/2 then f else if d > 1/2 then f + 1 else if even f then f else f + 1)"

definition round_dp :: "nat \<Rightarrow> real \<Rightarrow> real" where
  "round_dp n x = of_int (round_half_even (x * 10 ^ n)) / 10 ^ n"

definition Math_round :: "real \<Rightarrow> int" where
  "Math_round x = \<lfloor>x + 1/2\<rfloor>"

subsection \<open>JavaScript numbers\<close>

text \<open>
  The numbers of the page's script are IEEE 754 doubles. An amount or a tolerance of the
  model is the real value of a double. \<open>double x\<close> is the double nearest to \<open>x\<close>, a
  tie going to the even mantissa: \<open>x\<close> is scaled so that its integer part has 53 bits,
  rounded to an integer and scaled back. Overflow and subnormal numbers are not
  modelled. A numeric literal denotes \<open>double\<close> of its decimal value, and a
  subtraction returns \<open>double\<close> of the exact difference.
\<close>

definition double :: "real \<Rightarrow> real" where
  "double x = (if x = 0 then 0 else
     (let e = \<lfloor>log 2 \<bar>x\<bar>\<rfloor> - 52
      in of_int (round_half_even (x / 2 powi e)) * 2 powi e))"

subsection \<open>Calendar\<close>

text \<open>Ordinal of a date in the proleptic Gregorian calendar, as Python's
  \<^verbatim>\<open>date.toordinal\<close> computes it; the difference of two ordinals is the \<^verbatim>\<open>.days\<close>
  of the difference of two midnight timestamps.\<close>

definition is_leap :: "int \<Rightarrow> bool" where
  "is_leap y = (y mod 4 = 0 \<and> (y mod 100 \<noteq> 0 \<or> y mod 400 = 0))"

definition days_before_year :: "int \<Rightarrow> int" where
  "days_before_year y = (let z = y - 1 in z * 365 + z div 4 - z div 100 + z div 400)"

definition days_before_month :: "int \<Rightarrow> int \<Rightarrow> int" where
  "days_before_month y m =
     [0, 31, 59, 90, 120, 151, 181, 212, 243, 273, 304, 334] ! nat ((m - 1) mod 12)
       + (if m > 2 \<and> is_leap y then 1 else 0)"

definition toordinal :: "timestamp \<Rightarrow> int" where
  "toordinal t = days_before_year (year t) + days_before_month (year t) (month t) + day t"

text \<open>The month period of a date (\<^verbatim>\<open>.dt.to_period('M')\<close>).\<close>

definition to_period_M :: "timestamp \<Rightarrow> int \<times> int" where
  "to_period_M t = (year t, month t)"

section \<open>Loading transactions\<close>

subsection \<open>\<^verbatim>\<open>analysis.load_transactions\<close>\<close>

text \<open>
  The body of the loop over the files of the data directory: the \<^verbatim>\<open>Date\<close> column is
  converted first, then the \<^verbatim>\<open>Amount\<close> column; a missing column raises KeyError. The
  \<^verbatim>\<open>Source\<close> column is the file's stem.
\<close>

definition analysis_row :: "csv_file \<Rightarrow> csv_row \<times> timestamp option \<Rightarrow> row" where
  "analysis_row f = (\<lambda>(r, d).
     \<lparr>Date = d, Amount = to_numeric (raw_Amount r),
      Description = text_col f ''Description'' raw_Description r,
      Category = text_col f ''Category'' raw_Category r,
      Source = Some (stem f)\<rparr>)"

definition analysis_load_file :: "csv_file \<Rightarrow> error + row list" where
  "analysis_load_file f =
     (if ''Date'' \<notin> set (columns f) then Inl (KeyError ''Date'')
      else case to_datetime (map raw_Date (rows f)) of
        Inl e \<Rightarrow> Inl e
      | Inr ds \<Rightarrow>
          if ''Amount'' \<notin> set (columns f) then Inl (KeyError ''Amount'')
          else Inr (map (analysis_row f) (zip (rows f) ds)))"

fun analysis_load_loop :: "csv_file list \<Rightarrow> error + row list list" where
  "analysis_load_loop [] = Inr []"
| "analysis_load_loop (f # fs) =
     (case analysis_load_file f of
        Inl e \<Rightarrow> Inl e
      | Inr df \<Rightarrow> (case analysis_load_loop fs of Inl e \<Rightarrow> Inl e | Inr dfs \<Rightarrow> Inr (df # dfs)))"

definition analysis_load_transactions :: "csv_file list \<Rightarrow> error + row list" where
  "analysis_load_transactions fs =
     (case analysis_load_loop fs of
        Inl e \<Rightarrow> Inl e
      | Inr all_data \<Rightarrow>
          if all_data = [] then Inl (FileNotFoundError ''No CSV files found in data directory'')
          else Inr (concat all_data))"

subsection \<open>\<^verbatim>\<open>generate_dashboard.load_transactions\<close>\<close>

text \<open>
  One pass of the loop body. The result is \<open>None\<close> when the file is skipped with a
  warning, and otherwise the frame appended to \<^verbatim>\<open>all_dfs\<close>, with the header it came
  from. In the first branch the rows are filtered on \<^verbatim>\<open>Debit > 0\<close> after
  \<^verbatim>\<open>Amount\<close> was set to the debit.
\<close>

definition debit_of :: "csv_row \<Rightarrow> real" where
  "debit_of r = fillna 0 (to_numeric (raw_Debit r))"

definition credit_of :: "csv_row \<Rightarrow> real" where
  "credit_of r = fillna 0 (to_numeric (raw_Credit r))"

definition schema_b_row :: "csv_file \<Rightarrow> csv_row \<times> timestamp option \<Rightarrow> row" where
  "schema_b_row f = (\<lambda>(r, d).
     \<lparr>Date = d, Amount = Some (debit_of r),
      Description = text_col f ''Description'' raw_Description r,
      Category = text_col f ''Category'' raw_Category r,
      Source = None\<rparr>)"

definition schema_a_row :: "csv_file \<Rightarrow> csv_row \<times> timestamp option \<Rightarrow> row" where
  "schema_a_row f = (\<lambda>(r, d).
     \<lparr>Date = d, Amount = to_numeric (raw_Amount r),
      Description = text_col f ''Description'' raw_Description r,
      Category = text_col f ''Category'' raw_Category r,
      Source = None\<rparr>)"

definition dashboard_read_file :: "csv_file \<Rightarrow> error + (string list \<times> row list) option" where
  "dashboard_read_file f =
     (if ''Transaction Date'' \<in> set (columns f) then
        (case to_datetime (map raw_Transaction_Date (rows f)) of
           Inl e \<Rightarrow> Inl e
         | Inr ds \<Rightarrow>
             if ''Debit'' \<notin> set (columns f) then Inl (KeyError ''Debit'')
             else if ''Credit'' \<notin> set (columns f) then Inl (KeyError ''Credit'')
             else Inr (Some (columns f,
                    map (schema_b_row f) (filter (\<lambda>(r, d). debit_of r > 0) (zip (rows f) ds)))))
      else if ''Date'' \<in> set (columns f) \<and> ''Amount'' \<in> set (columns f) then
        (case to_datetime (map raw_Date (rows f)) of
           Inl e \<Rightarrow> Inl e
         | Inr ds \<Rightarrow> Inr (Some (columns f, map (schema_a_row f) (zip (rows f) ds))))
      else Inr None)"

text \<open>The files the loop does not skip: the condition of the first or of the second
  branch holds.\<close>

definition recognized_schema :: "csv_file \<Rightarrow> bool" where
  "recognized_schema f =
     (''Transaction Date'' \<in> set (columns f) \<or>
      (''Date'' \<in> set (columns f) \<and> ''Amount'' \<in> set (columns f)))"

fun dashboard_load_loop :: "csv_file list \<Rightarrow> error + (string list \<times> row list) list" where
  "dashboard_load_loop [] = Inr []"
| "dashboard_load_loop (f # fs) =
     (case dashboard_read_file f of
        Inl e \<Rightarrow> Inl e
      | Inr None \<Rightarrow> dashboard_load_loop fs
      | Inr (Some df) \<Rightarrow>
          (case dashboard_load_loop fs of Inl e \<Rightarrow> Inl e | Inr dfs \<Rightarrow> Inr (df # dfs)))"

text \<open>
  \<^verbatim>\<open>drop_duplicates(subset=['Date', 'Amount', 'Description'], keep='first')\<close>: a row
  is dropped when an earlier row has the same key; pandas takes NaN equal to NaN here.
\<close>

definition dup_key :: "row \<Rightarrow> timestamp option \<times> real option \<times> string option" where
  "dup_key r = (Date r, Amount r, Description r)"

fun drop_duplicates_from :: "(timestamp option \<times> real option \<times> string option) list \<Rightarrow> row list \<Rightarrow> row list" where
  "drop_duplicates_from seen [] = []"
| "drop_duplicates_from seen (r # rs) =
     (if dup_key r \<in> set seen then drop_duplicates_from seen rs
      else r # drop_duplicates_from (dup_key r # seen) rs)"

definition drop_duplicates :: "row list \<Rightarrow> row list" where
  "drop_duplicates df = drop_duplicates_from [] df"

text \<open>
  The loader. \<^verbatim>\<open>drop_duplicates\<close> raises KeyError when no loaded file has a
  \<^verbatim>\<open>Description\<close> column. The columns \<^verbatim>\<open>Year\<close>, \<^verbatim>\<open>Month\<close> and \<^verbatim>\<open>YearMonth\<close> added at
  the end are functions of \<^verbatim>\<open>Date\<close> and are not stored in the model's rows.
\<close>

definition dashboard_load_transactions :: "csv_file list \<Rightarrow> error + row list" where
  "dashboard_load_transactions fs =
     (case dashboard_load_loop fs of
        Inl e \<Rightarrow> Inl e
      | Inr all_dfs \<Rightarrow>
          if all_dfs = [] then Inl (ValueError ''No valid CSV files found in data directory'')
          else if \<not> (\<exists>df \<in> set all_dfs. ''Description'' \<in> set (fst df))
          then Inl (KeyError ''Description'')
          else Inr (drop_duplicates (concat (map snd all_dfs))))"

section \<open>Aggregation (\<^verbatim>\<open>analysis.py\<close>)\<close>

subsection \<open>\<^verbatim>\<open>get_summary_stats\<close>\<close>

text \<open>The values of the dictionary the function returns.\<close>

datatype stat = Float real | NaN | Integer int | Range "timestamp option" "timestamp option"

definition ts_less :: "timestamp \<Rightarrow> timestamp \<Rightarrow> bool" where
  "ts_less a b = (year a < year b \<or> (year a = year b \<and>
     (month a < month b \<or> (month a = month b \<and> day a < day b))))"

definition present_dates :: "row list \<Rightarrow> timestamp list" where
  "present_dates df = concat (map (\<lambda>r. case Date r of None \<Rightarrow> [] | Some t \<Rightarrow> [t]) df)"

text \<open>\<^verbatim>\<open>df['Date'].min()\<close> and \<^verbatim>\<open>.max()\<close>: NaT is skipped, and NaT is the answer when
  nothing is left.\<close>

definition date_min :: "row list \<Rightarrow> timestamp option" where
  "date_min df = (case present_dates df of
     [] \<Rightarrow> None | t # ts \<Rightarrow> Some (foldl (\<lambda>m x. if ts_less x m then x else m) t ts))"

definition date_max :: "row list \<Rightarrow> timestamp option" where
  "date_max df = (case present_dates df of
     [] \<Rightarrow> None | t # ts \<Rightarrow> Some (foldl (\<lambda>m x. if ts_less m x then x else m) t ts))"

text \<open>\<^verbatim>\<open>(max - min).days\<close>; NaN when the difference is NaT.\<close>

definition days_covered :: "row list \<Rightarrow> stat" where
  "days_covered df = (case (date_max df, date_min df) of
     (Some hi, Some lo) \<Rightarrow> Integer (toordinal hi - toordinal lo) | _ \<Rightarrow> NaN)"

definition median :: "real list \<Rightarrow> real" where
  "median xs = (let s = sort xs; n = length s in
     if odd n then s ! (n div 2) else (s ! (n div 2 - 1) + s ! (n div 2)) / 2)"

definition get_summary_stats :: "row list \<Rightarrow> (string \<times> stat) list" where
  "get_summary_stats df =
     (let purchases = filter amount_gt0 df;
          refunds = filter amount_lt0 df
      in [(''gross_spent'', Float (col_sum (map Amount purchases))),
          (''refunds'', Float (col_sum (map Amount refunds))),
          (''net_spent'', Float (col_sum (map Amount df))),
          (''purchase_count'', Integer (int (length purchases))),
          (''refund_count'', Integer (int (length refunds))),
          (''transaction_count'', Integer (int (length df))),
          (''avg_transaction'',
             (if length purchases > 0
              then (case col_mean (map Amount purchases) of None \<Rightarrow> NaN | Some m \<Rightarrow> Float m)
              else Integer 0)),
          (''median_transaction'',
             (if length purchases > 0 then Float (median (present (map Amount purchases)))
              else Integer 0)),
          (''date_range'', Range (date_min df) (date_max df)),
          (''days_covered'', days_covered df)])"

subsection \<open>\<^verbatim>\<open>spending_velocity\<close>\<close>

text \<open>\<^verbatim>\<open>stats[key]\<close>: KeyError when the dictionary has no such key.\<close>

definition getitem :: "(string \<times> stat) list \<Rightarrow> string \<Rightarrow> error + stat" where
  "getitem d k = (case map_of d k of None \<Rightarrow> Inl (KeyError k) | Some v \<Rightarrow> Inr v)"

text \<open>\<^verbatim>\<open>max(x, 1)\<close> returns \<open>x\<close> unless \<open>1 > x\<close>; no comparison with NaN is true.\<close>

fun max_with_1 :: "stat \<Rightarrow> stat" where
  "max_with_1 (Integer d) = Integer (max d 1)"
| "max_with_1 (Float x) = (if 1 > x then Integer 1 else Float x)"
| "max_with_1 s = s"

fun truediv :: "stat \<Rightarrow> stat \<Rightarrow> stat" where
  "truediv (Float t) (Integer d) = Float (t / of_int d)"
| "truediv (Float t) (Float d) = Float (t / d)"
| "truediv (Integer t) (Integer d) = Float (of_int t / of_int d)"
| "truediv (Integer t) (Float d) = Float (of_int t / d)"
| "truediv _ _ = NaN"

fun times :: "stat \<Rightarrow> real \<Rightarrow> stat" where
  "times (Float x) k = Float (x * k)"
| "times (Integer x) k = Float (of_int x * k)"
| "times _ k = NaN"

text \<open>
  The function reads \<^verbatim>\<open>stats['days_covered']\<close>, then builds the result dictionary,
  whose first entry reads \<^verbatim>\<open>stats['total_spent']\<close>.
\<close>

definition spending_velocity :: "row list \<Rightarrow> error + (string \<times> stat) list" where
  "spending_velocity df =
     (let stats = get_summary_stats df in
      case getitem stats ''days_covered'' of
        Inl e \<Rightarrow> Inl e
      | Inr dc \<Rightarrow>
         (let days = max_with_1 dc in
          case getitem stats ''total_spent'' of
            Inl e \<Rightarrow> Inl e
          | Inr total_spent \<Rightarrow>
              Inr [(''daily_average'', truediv total_spent days),
                   (''weekly_average'', times (truediv total_spent days) 7),
                   (''monthly_projection'', times (truediv total_spent days) 30.44),
                   (''annual_projection'', times (truediv total_spent days) 365)]))"

subsection \<open>Sorting a frame by a column\<close>

text \<open>
  A stable insertion sort: \<open>precedes y x\<close> says that \<open>y\<close> has to stand before \<open>x\<close>;
  rows that neither has to stand before the other keep the order they had.
\<close>

fun insert_by :: "('a \<Rightarrow> 'a \<Rightarrow> bool) \<Rightarrow> 'a \<Rightarrow> 'a list \<Rightarrow> 'a list" where
  "insert_by precedes x [] = [x]"
| "insert_by precedes x (y # ys) =
     (if precedes y x then y # insert_by precedes x ys else x # y # ys)"

definition sort_by :: "('a \<Rightarrow> 'a \<Rightarrow> bool) \<Rightarrow> 'a list \<Rightarrow> 'a list" where
  "sort_by precedes xs = foldr (insert_by precedes) xs []"

subsection \<open>\<^verbatim>\<open>category_breakdown\<close>\<close>

record breakdown_row =
  bd_Category :: string
  Total :: real
  Count :: nat
  Average :: "real option"
  Percent :: "real option"

text \<open>The group keys of \<^verbatim>\<open>groupby\<close>: the values of the column without NaN, each once,
  in ascending order.\<close>

definition group_keys :: "('a::linorder) option list \<Rightarrow> 'a list" where
  "group_keys ks = sort (remdups (concat (map (\<lambda>k. case k of None \<Rightarrow> [] | Some c \<Rightarrow> [c]) ks)))"

text \<open>
  \<^verbatim>\<open>Total / total_positive * 100\<close>, rounded to one decimal. When no category has a
  positive total the divisor is 0 and pandas gives no finite number: \<open>None\<close>.
\<close>

definition percent_of :: "real \<Rightarrow> real \<Rightarrow> real option" where
  "percent_of t total_positive =
     (if total_positive = 0 then None else Some (round_dp 1 (t / total_positive * 100)))"

definition category_groups :: "row list \<Rightarrow> breakdown_row list" where
  "category_groups df = map (\<lambda>c.
       let g = map Amount (filter (\<lambda>r. Category r = Some c) df)
       in \<lparr>bd_Category = c, Total = round_dp 2 (col_sum g), Count = length (present g),
           Average = map_option (round_dp 2) (col_mean g), Percent = None\<rparr>)
     (group_keys (map Category df))"

definition category_breakdown :: "row list \<Rightarrow> bool \<Rightarrow> breakdown_row list" where
  "category_breakdown df purchases_only =
     (let df1 = (if purchases_only then filter amount_gt0 df else df);
          breakdown = category_groups df1;
          total_positive = sum_list (map Total (filter (\<lambda>b. Total b > 0) breakdown))
      in sort_by (\<lambda>a b. Total a > Total b)
           (map (\<lambda>b. b\<lparr>Percent := percent_of (Total b) total_positive\<rparr>) breakdown))"

subsection \<open>\<^verbatim>\<open>find_recurring_charges\<close>\<close>

record merchant_row =
  mf_Description :: string
  Months_Present :: nat
  Avg_Amount :: real
  Std_Amount :: "real option"

text \<open>The key of \<^verbatim>\<open>groupby(['Description', 'Month'])\<close>; a row whose description or
  date is missing belongs to no group.\<close>

definition merchant_month :: "row \<Rightarrow> (string \<times> int \<times> int) option" where
  "merchant_month r = (case (Description r, Date r) of
     (Some d, Some t) \<Rightarrow> Some (d, to_period_M t) | _ \<Rightarrow> None)"

definition monthly_merchant :: "row list \<Rightarrow> ((string \<times> int \<times> int) \<times> real) list" where
  "monthly_merchant df = map (\<lambda>k.
       (k, col_sum (map Amount (filter (\<lambda>r. merchant_month r = Some k) df))))
     (group_keys (map merchant_month df))"

text \<open>\<^verbatim>\<open>.std()\<close>: the sample standard deviation, NaN for fewer than two values.\<close>

definition mean :: "real list \<Rightarrow> real" where
  "mean xs = sum_list xs / real (length xs)"

definition std :: "real list \<Rightarrow> real option" where
  "std xs = (if length xs < 2 then None
     else Some (sqrt (sum_list (map (\<lambda>x. (x - mean xs)\<^sup>2) xs) / real (length xs - 1))))"

definition merchant_frequency :: "row list \<Rightarrow> merchant_row list" where
  "merchant_frequency df =
     (let mm = monthly_merchant df in
      map (\<lambda>d. let g = map snd (filter (\<lambda>(k, a). fst k = d) mm)
                in \<lparr>mf_Description = d, Months_Present = length g,
                    Avg_Amount = mean g, Std_Amount = std g\<rparr>)
          (group_keys (map (\<lambda>(k, a). Some (fst k)) mm)))"

definition is_recurring :: "int \<Rightarrow> merchant_row \<Rightarrow> bool" where
  "is_recurring threshold_months m =
     (int (Months_Present m) \<ge> threshold_months \<and>
      fillna 0 (Std_Amount m) < Avg_Amount m * 0.2)"

definition find_recurring_charges :: "row list \<Rightarrow> int \<Rightarrow> merchant_row list" where
  "find_recurring_charges df threshold_months =
     map (\<lambda>m. m\<lparr>Avg_Amount := round_dp 2 (Avg_Amount m),
                 Std_Amount := map_option (round_dp 2) (Std_Amount m)\<rparr>)
       (sort_by (\<lambda>a b. Avg_Amount a > Avg_Amount b)
          (filter (is_recurring threshold_months) (merchant_frequency df)))"

section \<open>Subscription reconciler (\<^verbatim>\<open>getSubscriptions\<close> in the dashboard page)\<close>

text \<open>
  The page's script receives \<^verbatim>\<open>DATA\<close>, the structure \<^verbatim>\<open>process_data\<close> builds, and a
  catalog \<^verbatim>\<open>SUBSCRIPTIONS\<close>. A transaction of \<^verbatim>\<open>DATA\<close> has a date, an amount and a
  description (a string); \<^verbatim>\<open>getSubscriptions\<close> adds the category it is filed under.
\<close>

record txn =
  txn_Date :: timestamp
  txn_Amount :: real
  txn_Description :: string
  txn_category :: string

record cat_data =
  cd_total :: real
  cd_count :: nat
  cd_transactions :: "txn list"

record month_data =
  md_total :: real
  md_categories :: "(string \<times> cat_data) list"

datatype billing_cycle = monthly | annual | biannual

record subscription =
  sub_name :: string
  sub_patterns :: "string list"
  sub_category :: string
  sub_amount :: real
  sub_cycle :: billing_cycle
  sub_tolerance :: real
  sub_note :: "string option"

text \<open>The status strings \<^verbatim>\<open>'active'\<close>, \<^verbatim>\<open>'irregular'\<close>, \<^verbatim>\<open>'not-found'\<close> and
  \<^verbatim>\<open>'inactive'\<close>.\<close>

datatype status = active | irregular | not_found | inactive

record sub_result =
  res_name :: string
  res_subCategory :: string
  res_cycle :: billing_cycle
  res_expectedAmount :: real
  res_expectedMonthly :: real
  res_count :: nat
  res_total :: real
  res_actualMonthly :: real
  res_status :: status
  res_note :: string
  res_transactions :: "txn list"

text \<open>
  \<^verbatim>\<open>toUpperCase\<close> on strings of ASCII characters: a lower-case letter becomes the
  upper-case letter at the same place of the alphabet, any other character stays.
  JavaScript also maps letters outside ASCII; the statements below are about ASCII
  descriptions and patterns.
\<close>

definition letter_pairs :: "(char \<times> char) list" where
  "letter_pairs = zip ''abcdefghijklmnopqrstuvwxyz'' ''ABCDEFGHIJKLMNOPQRSTUVWXYZ''"

definition toUpperCase_char :: "char \<Rightarrow> char" where
  "toUpperCase_char c = (case map_of letter_pairs c of None \<Rightarrow> c | Some u \<Rightarrow> u)"

definition toUpperCase :: "string \<Rightarrow> string" where
  "toUpperCase s = map toUpperCase_char s"

text \<open>\<^verbatim>\<open>s.includes(p)\<close>: \<open>p\<close> occurs in \<open>s\<close> at some position.\<close>

fun starts_with :: "string \<Rightarrow> string \<Rightarrow> bool" where
  "starts_with s [] = True"
| "starts_with [] (p # ps) = False"
| "starts_with (c # cs) (p # ps) = (c = p \<and> starts_with cs ps)"

fun str_includes :: "string \<Rightarrow> string \<Rightarrow> bool" where
  "str_includes [] p = (p = [])"
| "str_includes (c # cs) p = (starts_with (c # cs) p \<or> str_includes cs p)"

text \<open>\<^verbatim>\<open>Math.round(x * 100) / 100\<close>\<close>

definition round_cents :: "real \<Rightarrow> real" where
  "round_cents x = of_int (Math_round (x * 100)) / 100"

text \<open>The list \<^verbatim>\<open>allTransactions\<close>: every transaction of every category of every
  month, in the order of \<^verbatim>\<open>DATA.byMonth\<close>.\<close>

definition allTransactions :: "(string \<times> month_data) list \<Rightarrow> txn list" where
  "allTransactions byMonth =
     concat (map (\<lambda>(ym, m).
       concat (map (\<lambda>(cat, catData).
         map (\<lambda>t. t\<lparr>txn_category := cat\<rparr>) (cd_transactions catData)) (md_categories m)))
       byMonth)"

text \<open>The callback of \<^verbatim>\<open>allTransactions.filter\<close>, with its early returns. The
  difference \<^verbatim>\<open>txn.Amount - sub.amount\<close> is a double.\<close>

definition matchesPattern :: "subscription \<Rightarrow> txn \<Rightarrow> bool" where
  "matchesPattern sub t =
     list_ex (\<lambda>pattern. str_includes (toUpperCase (txn_Description t)) (toUpperCase pattern))
       (sub_patterns sub)"

definition is_match :: "subscription \<Rightarrow> txn \<Rightarrow> bool" where
  "is_match sub t =
     (if txn_Amount t \<le> 0 then False
      else if \<not> matchesPattern sub t then False
      else (let diff = \<bar>double (txn_Amount t - sub_amount sub)\<bar>
            in diff \<le> sub_tolerance sub))"

text \<open>\<^verbatim>\<open>sub.note || d\<close>: the default when the note is missing or empty.\<close>

definition note_or :: "string option \<Rightarrow> string \<Rightarrow> string" where
  "note_or n d = (case n of None \<Rightarrow> d | Some s \<Rightarrow> if s = [] then d else s)"

text \<open>The comparator \<^verbatim>\<open>new Date(b.Date) - new Date(a.Date)\<close>, in days.\<close>

definition newest_first :: "txn \<Rightarrow> txn \<Rightarrow> int" where
  "newest_first a b = toordinal (txn_Date b) - toordinal (txn_Date a)"

text \<open>\<^verbatim>\<open>xs.sort(cmp)\<close>: stable; \<open>a\<close> stands before \<open>b\<close> when \<open>cmp a b < 0\<close>.\<close>

definition js_sort :: "('a \<Rightarrow> 'a \<Rightarrow> real) \<Rightarrow> 'a list \<Rightarrow> 'a list" where
  "js_sort cmp xs = sort_by (\<lambda>a b. cmp a b < 0) xs"

text \<open>The body of \<^verbatim>\<open>SUBSCRIPTIONS.forEach\<close>: the entry pushed for one definition.\<close>

definition sub_entry :: "txn list \<Rightarrow> subscription \<Rightarrow> sub_result" where
  "sub_entry allTxns sub =
     (if sub_amount sub = 0 then
        \<lparr>res_name = sub_name sub, res_subCategory = sub_category sub, res_cycle = sub_cycle sub,
         res_expectedAmount = 0, res_expectedMonthly = 0, res_count = 0, res_total = 0,
         res_actualMonthly = 0, res_status = inactive,
         res_note = note_or (sub_note sub) ''Not active'', res_transactions = []\<rparr>
      else
        (let matches = filter (is_match sub) allTxns;
             total_amount = foldl (\<lambda>sum t. sum + txn_Amount t) 0 matches;
             expectedMonthly =
               (if sub_cycle sub = annual then sub_amount sub / 12
                else if sub_cycle sub = biannual then sub_amount sub / 6
                else sub_amount sub);
             st = (if length matches = 0 then not_found
                   else if sub_cycle sub = monthly \<and> length matches < 6 then irregular
                   else active)
         in \<lparr>res_name = sub_name sub, res_subCategory = sub_category sub,
             res_cycle = sub_cycle sub, res_expectedAmount = sub_amount sub,
             res_expectedMonthly = round_cents expectedMonthly,
             res_count = length matches, res_total = round_cents total_amount,
             res_actualMonthly = round_cents (total_amount / 12), res_status = st,
             res_note = note_or (sub_note sub) [],
             res_transactions = js_sort (\<lambda>a b. real_of_int (newest_first a b)) matches\<rparr>))"

text \<open>The comparator of the final sort: inactive entries last, the rest by expected
  monthly cost, highest first.\<close>

definition by_status_then_cost :: "sub_result \<Rightarrow> sub_result \<Rightarrow> real" where
  "by_status_then_cost a b =
     (if res_status a = inactive \<and> res_status b \<noteq> inactive then 1
      else if res_status b = inactive \<and> res_status a \<noteq> inactive then -1
      else res_expectedMonthly b - res_expectedMonthly a)"

definition getSubscriptions :: "(string \<times> month_data) list \<Rightarrow> subscription list \<Rightarrow> sub_result list" where
  "getSubscriptions byMonth SUBSCRIPTIONS =
     js_sort by_status_then_cost (map (sub_entry (allTransactions byMonth)) SUBSCRIPTIONS)"

section \<open>Notions of the specification\<close>

text \<open>The sum of the percent column over the categories with a positive total.\<close>

definition positive_percent_sum :: "breakdown_row list \<Rightarrow> real" where
  "positive_percent_sum bd =
     sum_list (map (\<lambda>b. fillna 0 (Percent b)) (filter (\<lambda>b. Total b > 0) bd))"

text \<open>The calendar months in which a merchant appears: the months of the rows that
  carry its description and a date.\<close>

definition distinct_months :: "row list \<Rightarrow> string \<Rightarrow> (int \<times> int) set" where
  "distinct_months df d = set (concat (map (\<lambda>r.
     case merchant_month r of None \<Rightarrow> [] | Some k \<Rightarrow> if fst k = d then [snd k] else []) df))"




section \<open>Example inputs\<close>

text \<open>
  The scenario of the specification: the rows (01/05/2024, 45.00, NETFLIX.COM) and
  (02/05/2024, 15.49, NETFLIX.COM), filed under one category, and the Netflix entry of
  the page's catalog; a decimal amount stands for the double nearest to it.
  \<open>free_tier\<close> is a catalog entry with expected amount 0, and \<open>streaming_bundle\<close> a
  second entry whose pattern and tolerance also cover the Netflix charge. \<open>cheap_plan\<close>
  expects 1.20 with tolerance 1, and \<open>cheap_plan_charge\<close> is a charge of 2.20.
\<close>

definition netflix :: subscription where
  "netflix = \<lparr>sub_name = ''Netflix'', sub_patterns = [''NETFLIX''], sub_category = ''Streaming'',
     sub_amount = double 15.49, sub_cycle = monthly, sub_tolerance = 2, sub_note = None\<rparr>"

definition netflix_charge :: "int \<Rightarrow> real \<Rightarrow> txn" where
  "netflix_charge m a = \<lparr>txn_Date = \<lparr>year = 2024, month = m, day = 5\<rparr>, txn_Amount = a,
     txn_Description = ''NETFLIX.COM'', txn_category = ''Entertainment''\<rparr>"

definition netflix_jan :: txn where
  "netflix_jan = netflix_charge 1 45"

definition netflix_feb :: txn where
  "netflix_feb = netflix_charge 2 (double 15.49)"



definition small_charge :: txn where
  "small_charge = netflix_charge 5 1.5"

definition netflix_byMonth :: "(string \<times> month_data) list" where
  "netflix_byMonth =
     [(''2024-01'', \<lparr>md_total = 45, md_categories =
         [(''Entertainment'', \<lparr>cd_total = 45, cd_count = 1,
             cd_transactions = [netflix_jan]\<rparr>)]\<rparr>),
      (''2024-02'', \<lparr>md_total = double 15.49, md_categories =
         [(''Entertainment'', \<lparr>cd_total = double 15.49, cd_count = 1,
             cd_transactions = [netflix_feb]\<rparr>)]\<rparr>)]"



definition cheap_plan :: subscription where
  "cheap_plan = \<lparr>sub_name = ''Cheap plan'', sub_patterns = [''CHEAP''], sub_category = ''Software'',
     sub_amount = double 1.2, sub_cycle = monthly, sub_tolerance = 1, sub_note = None\<rparr>"

definition cheap_plan_charge :: txn where
  "cheap_plan_charge = \<lparr>txn_Date = \<lparr>year = 2024, month = 1, day = 5\<rparr>,
     txn_Amount = double (1.2 + 1), txn_Description = ''CHEAP PLAN'', txn_category = ''Software''\<rparr>"

definition free_tier :: subscription where
  "free_tier = \<lparr>sub_name = ''Free tier'', sub_patterns = [''NETFLIX''], sub_category = ''Streaming'',
     sub_amount = 0, sub_cycle = monthly, sub_tolerance = 2, sub_note = None\<rparr>"

definition streaming_bundle :: subscription where
  "streaming_bundle = \<lparr>sub_name = ''Streaming bundle'', sub_patterns = [''hbo'', ''flix''],
     sub_category = ''Streaming'', sub_amount = 15, sub_cycle = annual, sub_tolerance = 1,
     sub_note = None\<rparr>"

text \<open>
  Files for the loaders: an export in the first layout (\<^verbatim>\<open>Date\<close>, \<^verbatim>\<open>Amount\<close>) with the
  same purchase twice, one with an unreadable date, one with an unreadable amount; a card
  statement in the second layout (\<^verbatim>\<open>Transaction Date\<close>, \<^verbatim>\<open>Debit\<close>, \<^verbatim>\<open>Credit\<close>) holding
  a payment (Debit 0, Credit 50.00) alone or with a purchase; a file in neither layout.
\<close>

definition jan5 :: timestamp where
  "jan5 = \<lparr>year = 2024, month = 1, day = 5\<rparr>"

definition blank_row :: csv_row where
  "blank_row = \<lparr>raw_Date = DateEmpty, raw_Transaction_Date = DateEmpty, raw_Amount = NumEmpty,
     raw_Debit = NumEmpty, raw_Credit = NumEmpty, raw_Description = None, raw_Category = None\<rparr>"

definition purchase_row :: csv_row where
  "purchase_row = blank_row\<lparr>raw_Date := DateText jan5, raw_Amount := NumText 45,
     raw_Description := Some ''NETFLIX.COM'', raw_Category := Some ''Entertainment''\<rparr>"

definition schema_a_columns :: "string list" where
  "schema_a_columns = [''Date'', ''Description'', ''Category'', ''Amount'']"

definition schema_b_columns :: "string list" where
  "schema_b_columns = [''Transaction Date'', ''Description'', ''Category'', ''Debit'', ''Credit'']"

definition repeated_file :: csv_file where
  "repeated_file = \<lparr>stem = ''export'', columns = schema_a_columns,
     rows = [purchase_row, purchase_row]\<rparr>"

definition purchase :: "string option \<Rightarrow> row" where
  "purchase src = \<lparr>Date = Some jan5, Amount = Some 45, Description = Some ''NETFLIX.COM'',
     Category = Some ''Entertainment'', Source = src\<rparr>"

definition bad_date_file :: csv_file where
  "bad_date_file = \<lparr>stem = ''export'', columns = schema_a_columns,
     rows = [purchase_row\<lparr>raw_Date := DateBad\<rparr>]\<rparr>"

definition bad_amount_file :: csv_file where
  "bad_amount_file = \<lparr>stem = ''export'', columns = schema_a_columns,
     rows = [purchase_row\<lparr>raw_Amount := NumBad\<rparr>, purchase_row]\<rparr>"

definition payment_row :: csv_row where
  "payment_row = blank_row\<lparr>raw_Transaction_Date := DateText jan5, raw_Debit := NumText 0,
     raw_Credit := NumText 50, raw_Description := Some ''PAYMENT THANK YOU''\<rparr>"

definition debit_row :: csv_row where
  "debit_row = blank_row\<lparr>raw_Transaction_Date := DateText jan5, raw_Debit := NumText 45,
     raw_Description := Some ''NETFLIX.COM'', raw_Category := Some ''Entertainment''\<rparr>"

definition payment_file :: csv_file where
  "payment_file = \<lparr>stem = ''card'', columns = schema_b_columns, rows = [payment_row]\<rparr>"

definition card_file :: csv_file where
  "card_file = \<lparr>stem = ''card'', columns = schema_b_columns, rows = [payment_row, debit_row]\<rparr>"

definition bad_debit_file :: csv_file where
  "bad_debit_file = \<lparr>stem = ''card'', columns = schema_b_columns,
     rows = [debit_row\<lparr>raw_Debit := NumBad\<rparr>]\<rparr>"

definition unknown_file :: csv_file where
  "unknown_file = \<lparr>stem = ''notes'', columns = [''When'', ''What''], rows = [blank_row]\<rparr>"

text \<open>
  Frames for the aggregations: one purchase of 1.00 in each of six, or three,
  categories; a merchant crediting 10.00 in each of two months; a bill of 30.00 in each
  of two months beside a merchant seen in one month.
\<close>

definition category_purchase :: "string \<Rightarrow> row" where
  "category_purchase c = \<lparr>Date = Some jan5, Amount = Some 1, Description = Some ''SHOP'',
     Category = Some c, Source = None\<rparr>"

definition six_categories :: "row list" where
  "six_categories = map category_purchase
     [''Dining'', ''Fuel'', ''Groceries'', ''Health'', ''Lodging'', ''Travel'']"

definition three_categories :: "row list" where
  "three_categories = map category_purchase [''Dining'', ''Fuel'', ''Groceries'']"

definition monthly_charge :: "string \<Rightarrow> int \<Rightarrow> real \<Rightarrow> row" where
  "monthly_charge d m a = \<lparr>Date = Some \<lparr>year = 2024, month = m, day = 5\<rparr>, Amount = Some a,
     Description = Some d, Category = None, Source = None\<rparr>"

definition monthly_credit :: "row list" where
  "monthly_credit = [monthly_charge ''CASHBACK'' 1 (-10), monthly_charge ''CASHBACK'' 2 (-10)]"

definition steady_bill :: "row list" where
  "steady_bill = [monthly_charge ''WATER CO'' 1 30, monthly_charge ''WATER CO'' 2 30,
     monthly_charge ''ONCE'' 2 30]"

section \<open>Properties\<close>

lemma getitem_total_spent:
  "getitem (get_summary_stats df) ''total_spent'' = Inl (KeyError ''total_spent'')"
  by (simp add: getitem_def get_summary_stats_def Let_def)

lemma getitem_days_covered:
  "getitem (get_summary_stats df) ''days_covered'' = Inr (days_covered df)"
  by (simp add: getitem_def get_summary_stats_def Let_def)

subsection \<open>Spending velocity\<close>

text \<open>
  C1. The spending-velocity operation is specified to return a record with the daily
  average (total spent over days covered, the days floored to 1), that average times 7,
  times 30.44 and times 365. The function does not return that record for any frame:
  it reads the key \<^verbatim>\<open>total_spent\<close>, which the dictionary of \<^verbatim>\<open>get_summary_stats\<close> does not
  have (its totals are \<^verbatim>\<open>gross_spent\<close>, \<^verbatim>\<open>refunds\<close> and \<^verbatim>\<open>net_spent\<close>), so every call ends
  in KeyError.
\<close>

theorem spending_velocity_KeyError:
  "spending_velocity df = Inl (KeyError ''total_spent'')"
  by (simp add: spending_velocity_def Let_def getitem_total_spent getitem_days_covered)

subsection \<open>Loaders: auxiliary facts\<close>

lemma to_datetime_ok: "DateBad \<notin> set cs \<Longrightarrow> to_datetime cs = Inr (map cell_date cs)"
  by (induction cs rule: to_datetime.induct) auto


lemma to_datetime_error:
  "to_datetime cs = Inl e \<Longrightarrow> e = ValueError ''time data does not match format''"
  by (induction cs arbitrary: e rule: to_datetime.induct) (auto split: sum.splits)

lemma zip_map_same: "zip xs (map h xs) = map (\<lambda>x. (x, h x)) xs"
  by (induction xs) auto

lemma filter_map_pair:
  "filter (\<lambda>(r, d). P r) (map (\<lambda>x. (x, h x)) xs) = map (\<lambda>x. (x, h x)) (filter P xs)"
  by (induction xs) auto

lemma schema_b_read:
  assumes "''Transaction Date'' \<in> set (columns f)" and "''Debit'' \<in> set (columns f)"
    and "''Credit'' \<in> set (columns f)"
    and "DateBad \<notin> set (map raw_Transaction_Date (rows f))"
  shows "dashboard_read_file f = Inr (Some (columns f,
           map (\<lambda>r. schema_b_row f (r, cell_date (raw_Transaction_Date r)))
             (filter (\<lambda>r. debit_of r > 0) (rows f))))"
  using assms
  by (simp add: dashboard_read_file_def to_datetime_ok zip_map_same filter_map_pair comp_def)


lemma read_file_None_iff: "dashboard_read_file f = Inr None \<longleftrightarrow> \<not> recognized_schema f"
  by (auto simp: dashboard_read_file_def recognized_schema_def split: sum.splits)

lemma read_file_error:
  "dashboard_read_file f = Inl e \<Longrightarrow>
     e \<noteq> ValueError ''No valid CSV files found in data directory''"
  by (auto simp: dashboard_read_file_def split: sum.splits if_splits dest!: to_datetime_error)

lemma load_loop_error:
  "dashboard_load_loop fs = Inl e \<Longrightarrow>
     e \<noteq> ValueError ''No valid CSV files found in data directory''"
proof (induction fs)
  case Nil
  then show ?case by simp
next
  case (Cons f fs)
  then show ?case
    by (auto split: sum.splits option.splits dest: read_file_error)
qed

lemma load_loop_empty_iff:
  "dashboard_load_loop fs = Inr [] \<longleftrightarrow> (\<forall>f \<in> set fs. \<not> recognized_schema f)"
proof (induction fs)
  case Nil
  then show ?case by simp
next
  case (Cons f fs)
  show ?case
  proof (cases "dashboard_read_file f")
    case (Inl e)
    then have "recognized_schema f"
      using read_file_None_iff [of f] by auto
    with Inl show ?thesis by simp
  next
    case (Inr res)
    show ?thesis
    proof (cases res)
      case None
      with Inr have "\<not> recognized_schema f" using read_file_None_iff by blast
      with Inr None Cons.IH show ?thesis by simp
    next
      case (Some df)
      with Inr have "recognized_schema f" using read_file_None_iff [of f] by auto
      with Inr Some show ?thesis by (auto split: sum.splits)
    qed
  qed
qed

lemma load_loop_filter:
  "dashboard_load_loop (filter recognized_schema fs) = dashboard_load_loop fs"
proof (induction fs)
  case Nil
  then show ?case by simp
next
  case (Cons f fs)
  show ?case
  proof (cases "recognized_schema f")
    case True
    then have "dashboard_read_file f \<noteq> Inr None" using read_file_None_iff by blast
    with True Cons.IH show ?thesis by (auto split: sum.splits option.splits)
  next
    case False
    then have "dashboard_read_file f = Inr None" using read_file_None_iff by blast
    with False Cons.IH show ?thesis by simp
  qed
qed

lemma dd_keys:
  "dup_key ` set (drop_duplicates_from seen rs) = dup_key ` set rs - set seen"
  by (induction rs arbitrary: seen) auto

lemma dd_distinct: "distinct (map dup_key (drop_duplicates_from seen rs))"
proof (induction rs arbitrary: seen)
  case Nil
  then show ?case by simp
next
  case (Cons a rs)
  have "dup_key a \<notin> dup_key ` set (drop_duplicates_from (dup_key a # seen) rs)"
    by (simp add: dd_keys)
  with Cons show ?case by simp
qed

lemma dd_first:
  "r \<in> set (drop_duplicates_from seen rs) \<Longrightarrow> find (\<lambda>x. dup_key x = dup_key r) rs = Some r"
proof (induction rs arbitrary: seen)
  case Nil
  then show ?case by simp
next
  case (Cons a rs)
  show ?case
  proof (cases "dup_key a \<in> set seen")
    case True
    with Cons.prems have m: "r \<in> set (drop_duplicates_from seen rs)" by simp
    then have "dup_key r \<in> dup_key ` set (drop_duplicates_from seen rs)" by simp
    then have "dup_key r \<notin> set seen" by (simp add: dd_keys)
    with True have "dup_key a \<noteq> dup_key r" by auto
    with Cons.IH [OF m] show ?thesis by simp
  next
    case False
    with Cons.prems consider "r = a" | "r \<in> set (drop_duplicates_from (dup_key a # seen) rs)"
      by auto
    then show ?thesis
    proof cases
      case 1
      then show ?thesis by simp
    next
      case 2
      then have "dup_key r \<in> dup_key ` set (drop_duplicates_from (dup_key a # seen) rs)"
        by simp
      then have "dup_key a \<noteq> dup_key r" by (auto simp: dd_keys)
      with Cons.IH [OF 2] show ?thesis by simp
    qed
  qed
qed

lemma find_key_in:
  "find (\<lambda>x. dup_key x = k) out = Some r \<Longrightarrow> r \<in> set out \<and> dup_key r = k"
  by (induction out) (auto split: if_splits)

lemma distinct_key_count:
  "distinct (map dup_key out) \<Longrightarrow> k \<in> set (map dup_key out) \<Longrightarrow>
     length (filter (\<lambda>x. dup_key x = k) out) = 1"
proof (induction out)
  case Nil
  then show ?case by simp
next
  case (Cons a out)
  show ?case
  proof (cases "dup_key a = k")
    case True
    with Cons.prems have "k \<notin> set (map dup_key out)" by auto
    then have "filter (\<lambda>x. dup_key x = k) out = []" by (auto simp: filter_empty_conv)
    with True show ?thesis by simp
  next
    case False
    with Cons show ?thesis by auto
  qed
qed

lemma drop_duplicates_first:
  assumes "r \<in> set df"
  shows "length (filter (\<lambda>x. dup_key x = dup_key r) (drop_duplicates df)) = 1 \<and>
         find (\<lambda>x. dup_key x = dup_key r) (drop_duplicates df)
           = find (\<lambda>x. dup_key x = dup_key r) df"
proof -
  let ?out = "drop_duplicates df"
  have k: "dup_key r \<in> set (map dup_key ?out)"
    using assms by (simp add: drop_duplicates_def dd_keys)
  have d: "distinct (map dup_key ?out)" by (simp add: drop_duplicates_def dd_distinct)
  from k obtain y where y: "y \<in> set ?out" "dup_key y = dup_key r" by auto
  then obtain z where z: "find (\<lambda>x. dup_key x = dup_key r) ?out = Some z"
    by (cases "find (\<lambda>x. dup_key x = dup_key r) ?out") (auto simp: find_None_iff)
  then have zin: "z \<in> set ?out" "dup_key z = dup_key r" using find_key_in by blast+
  then have "find (\<lambda>x. dup_key x = dup_key z) df = Some z"
    using dd_first [of z "[]" df] by (simp add: drop_duplicates_def)
  with zin z have "find (\<lambda>x. dup_key x = dup_key r) ?out = find (\<lambda>x. dup_key x = dup_key r) df"
    by simp
  with distinct_key_count [OF d k] show ?thesis by simp
qed

lemmas example_defs = jan5_def blank_row_def purchase_row_def schema_a_columns_def
  schema_b_columns_def repeated_file_def purchase_def bad_date_file_def bad_amount_file_def
  payment_row_def debit_row_def payment_file_def card_file_def unknown_file_def

subsection \<open>Duplicate elimination\<close>

text \<open>
  C2, as stated, fails for the loader of \<^verbatim>\<open>analysis.py\<close>, which concatenates the files
  and returns: a file holding the same (date, amount, description) twice gives two
  records.
\<close>

theorem analysis_loader_keeps_duplicates:
  "analysis_load_transactions [repeated_file]
     = Inr [purchase (Some ''export''), purchase (Some ''export'')]"
  by (simp add: analysis_load_transactions_def analysis_load_file_def analysis_row_def
      text_col_def example_defs)

lemma repeated_file_loop:
  "dashboard_load_loop [repeated_file] = Inr [(schema_a_columns, [purchase None, purchase None])]"
  by (simp add: dashboard_read_file_def schema_a_row_def text_col_def example_defs)

text \<open>
  C2, amended. The loader of \<^verbatim>\<open>generate_dashboard.py\<close> returns whenever its loop over
  the files does, at least one file was loaded and one of them has a \<^verbatim>\<open>Description\<close>
  column; then no two records of the result have the same (date, amount, description),
  and for every row \<open>r\<close> of the concatenated frames exactly one record of the result has
  the key of \<open>r\<close>: the first row of the concatenation with that key.
\<close>

theorem dashboard_load_deduplicates:
  assumes "dashboard_load_loop fs = Inr all_dfs" and "all_dfs \<noteq> []"
    and "\<exists>d \<in> set all_dfs. ''Description'' \<in> set (fst d)"
    and "r \<in> set (concat (map snd all_dfs))"
  shows "\<exists>out. dashboard_load_transactions fs = Inr out \<and>
           distinct (map dup_key out) \<and>
           length (filter (\<lambda>x. dup_key x = dup_key r) out) = 1 \<and>
           find (\<lambda>x. dup_key x = dup_key r) out
             = find (\<lambda>x. dup_key x = dup_key r) (concat (map snd all_dfs))"
proof -
  have "dashboard_load_transactions fs = Inr (drop_duplicates (concat (map snd all_dfs)))"
    using assms(1-3) by (simp add: dashboard_load_transactions_def)
  moreover have "distinct (map dup_key (drop_duplicates (concat (map snd all_dfs))))"
    by (simp add: drop_duplicates_def dd_distinct)
  ultimately show ?thesis using drop_duplicates_first [OF assms(4)] by simp
qed

theorem dashboard_load_deduplicates_witness:
  "\<exists>out. dashboard_load_transactions [repeated_file] = Inr out \<and>
     distinct (map dup_key out) \<and>
     length (filter (\<lambda>x. dup_key x = dup_key (purchase None)) out) = 1 \<and>
     find (\<lambda>x. dup_key x = dup_key (purchase None)) out = Some (purchase None)"
proof -
  have a: "[(schema_a_columns, [purchase None, purchase None])] \<noteq> []" by simp
  have b: "\<exists>d \<in> set [(schema_a_columns, [purchase None, purchase None])].
             ''Description'' \<in> set (fst d)"
    by (simp add: schema_a_columns_def)
  have c: "purchase None \<in> set (concat (map snd [(schema_a_columns, [purchase None, purchase None])]))"
    by simp
  from dashboard_load_deduplicates [OF repeated_file_loop a b c] show ?thesis by simp
qed

subsection \<open>Fatal and non-fatal conditions of the dashboard loader\<close>

lemma payment_file_load: "dashboard_load_transactions [payment_file] = Inr []"
  by (simp add: dashboard_load_transactions_def dashboard_read_file_def debit_of_def fillna_def
      drop_duplicates_def example_defs)

text \<open>
  C4, as stated, fails: a statement in the second layout that holds only a payment is
  loaded, every row of it is filtered out, zero records remain, and the loader returns
  the empty frame instead of raising.
\<close>

theorem no_records_not_fatal:
  "dashboard_load_transactions [payment_file] = Inr []"
  by (rule payment_file_load)

text \<open>
  C4, amended. The loader raises its error "No valid CSV files found in data directory"
  if and only if no file matches a recognized layout (whether records remain does not
  matter); a file that matches neither layout is skipped and changes nothing: the
  result is the result for the other files.
\<close>

theorem no_valid_csv_iff:
  "(dashboard_load_transactions fs = Inl (ValueError ''No valid CSV files found in data directory'')
      \<longleftrightarrow> (\<forall>f \<in> set fs. \<not> recognized_schema f)) \<and>
   dashboard_load_transactions fs = dashboard_load_transactions (filter recognized_schema fs)"
proof
  show "dashboard_load_transactions fs = Inl (ValueError ''No valid CSV files found in data directory'')
      \<longleftrightarrow> (\<forall>f \<in> set fs. \<not> recognized_schema f)"
  proof
    assume a: "dashboard_load_transactions fs =
      Inl (ValueError ''No valid CSV files found in data directory'')"
    have "dashboard_load_loop fs = Inr []"
    proof (cases "dashboard_load_loop fs")
      case (Inl e)
      with a have "e = ValueError ''No valid CSV files found in data directory''"
        by (simp add: dashboard_load_transactions_def)
      with Inl load_loop_error show ?thesis by blast
    next
      case (Inr dfs)
      with a show ?thesis
        by (auto simp: dashboard_load_transactions_def split: if_splits)
    qed
    then show "\<forall>f \<in> set fs. \<not> recognized_schema f"
      by (simp add: load_loop_empty_iff)
  next
    assume "\<forall>f \<in> set fs. \<not> recognized_schema f"
    then have "dashboard_load_loop fs = Inr []" by (simp add: load_loop_empty_iff)
    then show "dashboard_load_transactions fs =
      Inl (ValueError ''No valid CSV files found in data directory'')"
      by (simp add: dashboard_load_transactions_def)
  qed
next
  show "dashboard_load_transactions fs = dashboard_load_transactions (filter recognized_schema fs)"
    by (simp add: dashboard_load_transactions_def load_loop_filter)
qed

theorem no_valid_csv_iff_witness:
  "dashboard_load_transactions [unknown_file]
     = Inl (ValueError ''No valid CSV files found in data directory'') \<and>
   dashboard_load_transactions [unknown_file, payment_file] = Inr []"
proof -
  have u: "\<not> recognized_schema unknown_file"
    by (simp add: recognized_schema_def unknown_file_def)
  have p: "recognized_schema payment_file"
    by (simp add: recognized_schema_def payment_file_def schema_b_columns_def)
  from no_valid_csv_iff [of "[unknown_file]"] u
  have "dashboard_load_transactions [unknown_file]
     = Inl (ValueError ''No valid CSV files found in data directory'')" by simp
  moreover from no_valid_csv_iff [of "[unknown_file, payment_file]"] u p
  have "dashboard_load_transactions [unknown_file, payment_file]
     = dashboard_load_transactions [payment_file]" by simp
  ultimately show ?thesis by (simp add: payment_file_load)
qed

subsection \<open>The Debit/Credit layout\<close>

lemma amount_gt0_schema_b: "amount_gt0 (schema_b_row f (r, d)) \<longleftrightarrow> debit_of r > 0"
  by (simp add: schema_b_row_def amount_gt0_def)

text \<open>
  C8. For a file in the second layout whose dates parse, the frame the loader keeps has
  one record for each row with Debit > 0 (an unreadable or empty Debit counting as 0),
  in order, with Amount set to the debit; every kept record has a positive amount, a
  file without such a row contributes nothing, and the loader's result for the file
  alone is that frame without duplicates. A row with Debit 0 and Credit 50.00 produces
  zero transactions.
\<close>

theorem schema_b_keeps_debits:
  assumes "''Transaction Date'' \<in> set (columns f)" and "''Debit'' \<in> set (columns f)"
    and "''Credit'' \<in> set (columns f)"
    and "DateBad \<notin> set (map raw_Transaction_Date (rows f))"
  shows "\<exists>out. dashboard_read_file f = Inr (Some (columns f, out)) \<and>
     map Amount out = map (\<lambda>r. Some (debit_of r)) (filter (\<lambda>r. debit_of r > 0) (rows f)) \<and>
     map Description out
       = map (text_col f ''Description'' raw_Description) (filter (\<lambda>r. debit_of r > 0) (rows f)) \<and>
     (\<forall>x \<in> set out. amount_gt0 x) \<and>
     ((\<forall>r \<in> set (rows f). \<not> debit_of r > 0) \<longrightarrow> out = []) \<and>
     (''Description'' \<in> set (columns f) \<longrightarrow>
        dashboard_load_transactions [f] = Inr (drop_duplicates out)) \<and>
     dashboard_load_transactions [payment_file] = Inr []"
proof -
  let ?out = "map (\<lambda>r. schema_b_row f (r, cell_date (raw_Transaction_Date r)))
             (filter (\<lambda>r. debit_of r > 0) (rows f))"
  have r: "dashboard_read_file f = Inr (Some (columns f, ?out))"
    using assms by (rule schema_b_read)
  have a: "map Amount ?out = map (\<lambda>r. Some (debit_of r)) (filter (\<lambda>r. debit_of r > 0) (rows f))"
    by (simp add: schema_b_row_def comp_def)
  have d: "map Description ?out
       = map (text_col f ''Description'' raw_Description) (filter (\<lambda>r. debit_of r > 0) (rows f))"
    by (simp add: schema_b_row_def comp_def)
  have p: "\<forall>x \<in> set ?out. amount_gt0 x"
    by (auto simp: amount_gt0_schema_b)
  have e: "(\<forall>r \<in> set (rows f). \<not> debit_of r > 0) \<longrightarrow> ?out = []"
    by (auto simp: filter_empty_conv)
  have l: "''Description'' \<in> set (columns f) \<longrightarrow>
        dashboard_load_transactions [f] = Inr (drop_duplicates ?out)"
    using r by (simp add: dashboard_load_transactions_def)
  show ?thesis
    apply (rule exI [of _ ?out])
    using r a d p e l payment_file_load apply (intro conjI)
          apply assumption+
    done
qed

theorem schema_b_keeps_debits_witness:
  "dashboard_load_transactions [card_file] = Inr [purchase None]"
proof -
  have h: "''Transaction Date'' \<in> set (columns card_file)" "''Debit'' \<in> set (columns card_file)"
    "''Credit'' \<in> set (columns card_file)"
    "DateBad \<notin> set (map raw_Transaction_Date (rows card_file))"
    by (simp_all add: example_defs)
  have d: "''Description'' \<in> set (columns card_file)" by (simp add: example_defs)
  from schema_b_keeps_debits [OF h] d obtain out where
    o: "dashboard_read_file card_file = Inr (Some (columns card_file, out))"
    and l: "dashboard_load_transactions [card_file] = Inr (drop_duplicates out)" by blast
  have "dashboard_read_file card_file = Inr (Some (columns card_file, [purchase None]))"
    by (simp add: dashboard_read_file_def schema_b_row_def debit_of_def fillna_def text_col_def
        example_defs)
  with o have "out = [purchase None]" by simp
  with l show ?thesis by (simp add: drop_duplicates_def)
qed

subsection \<open>Cells that fail to parse\<close>











subsection \<open>Rounding to doubles\<close>

lemma round_half_even_error: "\<bar>of_int (round_half_even x) - x\<bar> \<le> 1 / 2"
proof -
  have "of_int \<lfloor>x\<rfloor> \<le> x" "x < of_int \<lfloor>x\<rfloor> + 1" by linarith+
  then show ?thesis
    by (auto simp: round_half_even_def Let_def abs_le_iff)
qed

lemma floor_log2_eq:
  assumes "2 powi k \<le> x" and "x < 2 powi (k + 1)"
  shows "\<lfloor>log 2 x\<rfloor> = k"
proof -
  have "(0::real) < 2 powi k" by simp
  with assms(1) have x: "0 < x" by linarith
  have "(2::real) powr (real_of_int k) = 2 powi k"
    using powr_real_of_int' [of 2 k] by simp
  moreover have "(2::real) powr (real_of_int k + 1) = 2 powi (k + 1)"
    using powr_real_of_int' [of 2 "k + 1"] by simp
  ultimately have "2 powr (real_of_int k) \<le> x \<and> x < 2 powr (real_of_int k + 1)"
    using assms by simp
  then show ?thesis using floor_log_eq_powr_iff [of x 2 k] x by simp
qed

lemma double_eval:
  assumes "2 powi k \<le> \<bar>x\<bar>" and "\<bar>x\<bar> < 2 powi (k + 1)"
  shows "double x = of_int (round_half_even (x / 2 powi (k - 52))) * 2 powi (k - 52)"
proof -
  have "(0::real) < 2 powi k" by simp
  with assms(1) have "0 < \<bar>x\<bar>" by linarith
  then have "x \<noteq> 0" by simp
  moreover have "\<lfloor>log 2 \<bar>x\<bar>\<rfloor> = k" using assms by (rule floor_log2_eq)
  ultimately show ?thesis by (simp add: double_def Let_def)
qed

lemma double_error:
  assumes "2 powi k \<le> \<bar>x\<bar>" and "\<bar>x\<bar> < 2 powi (k + 1)"
  shows "\<bar>double x - x\<bar> \<le> 2 powi (k - 53)"
proof -
  let ?p = "(2::real) powi (k - 52)"
  have p: "0 < ?p" by simp
  have "\<bar>of_int (round_half_even (x / ?p)) - x / ?p\<bar> \<le> 1 / 2" by (rule round_half_even_error)
  then have "\<bar>of_int (round_half_even (x / ?p)) - x / ?p\<bar> * ?p \<le> 1 / 2 * ?p"
    using p by (intro mult_right_mono) auto
  moreover have "\<bar>of_int (round_half_even (x / ?p)) - x / ?p\<bar> * ?p
      = \<bar>of_int (round_half_even (x / ?p)) * ?p - x\<bar>"
  proof -
    have "\<bar>of_int (round_half_even (x / ?p)) - x / ?p\<bar> * ?p
        = \<bar>(of_int (round_half_even (x / ?p)) - x / ?p) * ?p\<bar>"
      using p by (simp add: abs_mult)
    also have "(of_int (round_half_even (x / ?p)) - x / ?p) * ?p
        = of_int (round_half_even (x / ?p)) * ?p - x"
      using p by (simp add: left_diff_distrib)
    finally show ?thesis .
  qed
  moreover have "1 / 2 * ?p = 2 powi (k - 53)"
    by (simp add: power_int_diff)
  ultimately show ?thesis using double_eval [OF assms] by simp
qed

lemma double_exceeds: 
  assumes "t + 1/200 \<le> x" and "t < 2 ^ 40"
  shows "t < \<bar>double x\<bar>"
proof (cases "0 \<le> t")
  case False
  then show ?thesis by linarith
next
  case True
  with assms have x: "0 < x" by linarith
  define k where "k = \<lfloor>log 2 x\<rfloor>"
  have b: "2 powi k \<le> \<bar>x\<bar> \<and> \<bar>x\<bar> < 2 powi (k + 1)"
    using floor_log_eq_powr_iff [of x 2 k] x powr_real_of_int' [of 2 k] powr_real_of_int' [of 2 "k + 1"]
    by (simp add: k_def)
  then have e: "\<bar>double x - x\<bar> \<le> 2 powi (k - 53)" by (intro double_error) auto
  show ?thesis
  proof (cases "k \<le> 45")
    case True
    then have "(2::real) powi (k - 53) \<le> 2 powi (-8)"
      by (intro power_int_increasing) auto
    also have "\<dots> < 1 / 200" by (simp add: power_int_minus)
    finally show ?thesis using e assms(1) by (simp add: abs_le_iff abs_less_iff) linarith
  next
    case False
    then have "(2::real) powi 46 \<le> 2 powi k" by (intro power_int_increasing) auto
    with b x have big: "2 ^ 46 \<le> x" by simp
    have "(2::real) powi (k - 53) \<le> 2 powi k / 2 ^ 53"
      by (simp add: power_int_diff)
    with b x have "2 powi (k - 53) \<le> x / 2 ^ 53" by (simp add: field_simps) 
    with e have "x - x / 2 ^ 53 \<le> double x" by (simp add: abs_le_iff)
    moreover have "x / 2 ^ 53 \<le> x / 2" using x by (simp add: field_simps)
    moreover have "t < x / 2" using big assms(2) by simp
    ultimately show ?thesis by linarith
  qed
qed


lemma double_15_49: "double 15.49 = 8720094778496123 / 2 ^ 49"
  using double_eval [of 3 "15.49"] by (simp add: round_half_even_def Let_def power_int_minus)


lemma double_1_2: "double 1.2 = 5404319552844595 / 2 ^ 52"
  using double_eval [of 0 "1.2"] by (simp add: round_half_even_def Let_def power_int_minus)

lemma double_2_2: "double (1.2 + 1) = 4953959590107546 / 2 ^ 51"
  using double_eval [of 1 "1.2 + 1"] by (simp add: round_half_even_def Let_def power_int_minus)

lemma double_1_5: "double (3 / 2) = 3 / 2"
  using double_eval [of 0 "3 / 2"] by (simp add: round_half_even_def Let_def power_int_minus)

lemma cheap_plan_difference: "double (double (1.2 + 1) - double 1.2) = 1 + 1 / 2 ^ 52"
  unfolding double_1_2 double_2_2
  using double_eval [of 0 "4953959590107546 / 2 ^ 51 - 5404319552844595 / 2 ^ 52"]
  by (simp add: round_half_even_def Let_def power_int_minus)


lemma bundle_difference: "double (double 15.49 - 15) = 275845477176443 / 2 ^ 49"
  unfolding double_15_49
  using double_eval [of "- 2" "8720094778496123 / 2 ^ 49 - 15"]
  by (simp add: round_half_even_def Let_def power_int_minus)

lemma netflix_amount: "sub_amount netflix = 8720094778496123 / 2 ^ 49"
  unfolding netflix_def double_15_49 by simp

lemma netflix_feb_amount: "txn_Amount netflix_feb = 8720094778496123 / 2 ^ 49"
  unfolding netflix_feb_def netflix_charge_def double_15_49 by simp

subsection \<open>Subscription reconciler: the match test\<close>









lemmas upper_case_defs = toUpperCase_def toUpperCase_char_def letter_pairs_def

lemma netflix_matchesPattern: "matchesPattern netflix (netflix_charge m a)"
  by (simp add: matchesPattern_def netflix_def netflix_charge_def upper_case_defs)

lemma free_tier_matchesPattern: "matchesPattern free_tier (netflix_charge m a)"
  by (simp add: matchesPattern_def free_tier_def netflix_charge_def upper_case_defs)

lemma bundle_matchesPattern: "matchesPattern streaming_bundle (netflix_charge m a)"
  by (simp add: matchesPattern_def streaming_bundle_def netflix_charge_def upper_case_defs)

lemma cheap_plan_matchesPattern: "matchesPattern cheap_plan cheap_plan_charge"
  by (simp add: matchesPattern_def cheap_plan_def cheap_plan_charge_def upper_case_defs)

text \<open>
  C6, as stated, fails at the boundary it names. The definition \<open>cheap_plan\<close> expects
  1.20 with tolerance 1; the charge of 2.20 = 1.20 + 1 is positive and contains the
  pattern, but the doubles nearest to 2.20 and 1.20 differ by 1 + 2^-52, which is more
  than the tolerance, and the transaction is not a match.
\<close>

theorem decimal_boundary_not_matched:
  "sub_amount cheap_plan = double 1.2 \<and> sub_tolerance cheap_plan = 1 \<and>
   txn_Amount cheap_plan_charge = double (1.2 + 1) \<and> txn_Amount cheap_plan_charge > 0 \<and>
   matchesPattern cheap_plan cheap_plan_charge \<and>
   \<not> is_match cheap_plan cheap_plan_charge"
proof -
  have a: "sub_amount cheap_plan = double 1.2" "sub_tolerance cheap_plan = 1"
    by (simp_all add: cheap_plan_def)
  have b: "txn_Amount cheap_plan_charge = double (1.2 + 1)"
    by (simp only: cheap_plan_charge_def txn.simps)
  have c: "txn_Amount cheap_plan_charge > 0"
    unfolding b double_2_2 by simp
  have d: "\<not> \<bar>double (txn_Amount cheap_plan_charge - sub_amount cheap_plan)\<bar>
             \<le> sub_tolerance cheap_plan"
    unfolding a b cheap_plan_difference by simp
  from d have "\<not> is_match cheap_plan cheap_plan_charge"
    by (simp add: is_match_def Let_def)
  with a b c cheap_plan_matchesPattern show ?thesis by blast
qed



subsection \<open>Subscription reconciler: status and totals\<close>

lemma set_insert_by: "set (insert_by p x ys) = insert x (set ys)"
  by (induction ys) auto

lemma set_sort_by: "set (sort_by p xs) = set xs"
  by (induction xs) (auto simp: sort_by_def set_insert_by)

lemma set_js_sort: "set (js_sort cmp xs) = set xs"
  by (simp add: js_sort_def set_sort_by)

lemma set_getSubscriptions:
  "set (getSubscriptions byMonth SUBS) = sub_entry (allTransactions byMonth) ` set SUBS"
  by (simp add: getSubscriptions_def set_js_sort)

lemma foldl_add_amounts:
  "foldl (\<lambda>sum t. sum + txn_Amount t) a ms = a + sum_list (map txn_Amount ms)"
  by (induction ms arbitrary: a) auto

lemma res_transactions_entry:
  "sub_amount sub \<noteq> 0 \<Longrightarrow>
     set (res_transactions (sub_entry txns sub)) = {t \<in> set txns. is_match sub t}"
  by (simp add: sub_entry_def Let_def set_js_sort)

lemma res_total_entry:
  "sub_amount sub \<noteq> 0 \<Longrightarrow>
     res_total (sub_entry txns sub) = round_cents (sum_list (map txn_Amount (filter (is_match sub) txns)))"
  by (simp add: sub_entry_def Let_def foldl_add_amounts)

lemma netflix_jan_no_match: "\<not> is_match netflix netflix_jan"
proof -
  have "sub_tolerance netflix + 1 / 200 \<le> txn_Amount netflix_jan - sub_amount netflix"
    unfolding netflix_amount by (simp add: netflix_def netflix_jan_def netflix_charge_def)
  moreover have "sub_tolerance netflix < 2 ^ 40" by (simp add: netflix_def)
  ultimately have "sub_tolerance netflix < \<bar>double (txn_Amount netflix_jan - sub_amount netflix)\<bar>"
    by (rule double_exceeds)
  then show ?thesis by (simp add: is_match_def Let_def)
qed

lemma netflix_feb_match: "is_match netflix netflix_feb"
proof -
  have "matchesPattern netflix netflix_feb"
    unfolding netflix_feb_def by (rule netflix_matchesPattern)
  moreover have "txn_Amount netflix_feb > 0"
    unfolding netflix_feb_amount by simp
  moreover have "\<bar>double (txn_Amount netflix_feb - sub_amount netflix)\<bar> \<le> sub_tolerance netflix"
    unfolding netflix_feb_amount netflix_amount by (simp add: netflix_def double_def)
  ultimately show ?thesis by (simp add: is_match_def Let_def)
qed

lemma netflix_allTransactions: "allTransactions netflix_byMonth = [netflix_jan, netflix_feb]"
  by (simp add: allTransactions_def netflix_byMonth_def netflix_jan_def netflix_feb_def
      netflix_charge_def)

lemma netflix_scenario:
  "map res_count (getSubscriptions netflix_byMonth [netflix]) = [1] \<and>
   map res_status (getSubscriptions netflix_byMonth [netflix]) = [irregular] \<and>
   map res_transactions (getSubscriptions netflix_byMonth [netflix]) = [[netflix_feb]]"
proof -
  have nz: "sub_amount netflix \<noteq> 0" unfolding netflix_amount by simp
  have cy: "sub_cycle netflix = monthly" by (simp add: netflix_def)
  have m: "filter (is_match netflix) (allTransactions netflix_byMonth) = [netflix_feb]"
    by (simp add: netflix_allTransactions netflix_jan_no_match netflix_feb_match)
  show ?thesis
    by (simp add: getSubscriptions_def js_sort_def sort_by_def sub_entry_def Let_def nz cy m)
qed

text \<open>
  C7. For every subscription definition the entry the reconciler pushes has status
  inactive when the expected amount is 0, whatever matches; otherwise its count is the
  number of matching transactions, and its status is not_found (the string
  \<^verbatim>\<open>'not-found'\<close>) when there is no match, active when the cycle is monthly and there
  are at least 6 matches, irregular when the cycle is monthly and there are between 1
  and 5 matches. Every definition of the catalog has its entry in the result of
  \<open>getSubscriptions\<close>. In the Netflix scenario exactly one transaction matches (the
  second) and the status is irregular.
\<close>

theorem status_assignment:
  "(sub_amount sub = 0 \<longrightarrow> res_status (sub_entry txns sub) = inactive) \<and>
   (sub_amount sub \<noteq> 0 \<longrightarrow> res_count (sub_entry txns sub) = length (filter (is_match sub) txns)) \<and>
   (sub_amount sub \<noteq> 0 \<and> length (filter (is_match sub) txns) = 0 \<longrightarrow>
      res_status (sub_entry txns sub) = not_found) \<and>
   (sub_amount sub \<noteq> 0 \<and> sub_cycle sub = monthly \<and> length (filter (is_match sub) txns) \<ge> 6 \<longrightarrow>
      res_status (sub_entry txns sub) = active) \<and>
   (sub_amount sub \<noteq> 0 \<and> sub_cycle sub = monthly \<and> 0 < length (filter (is_match sub) txns) \<and>
      length (filter (is_match sub) txns) < 6 \<longrightarrow>
      res_status (sub_entry txns sub) = irregular) \<and>
   (sub \<in> set SUBS \<longrightarrow>
      sub_entry (allTransactions byMonth) sub \<in> set (getSubscriptions byMonth SUBS)) \<and>
   map res_count (getSubscriptions netflix_byMonth [netflix]) = [1] \<and>
   map res_status (getSubscriptions netflix_byMonth [netflix]) = [irregular] \<and>
   map res_transactions (getSubscriptions netflix_byMonth [netflix]) = [[netflix_feb]]"
  using netflix_scenario
  by (simp add: set_getSubscriptions) (simp add: sub_entry_def Let_def)

theorem status_assignment_witness:
  "res_status (sub_entry (replicate 6 netflix_feb) netflix) = active \<and>
   res_status (sub_entry (replicate 5 netflix_feb) netflix) = irregular \<and>
   res_status (sub_entry [netflix_jan] netflix) = not_found \<and>
   res_status (sub_entry [netflix_feb] free_tier) = inactive"
proof -
  have nz: "sub_amount netflix \<noteq> 0" unfolding netflix_amount by simp
  have cy: "sub_cycle netflix = monthly" by (simp add: netflix_def)
  have z: "sub_amount free_tier = 0" by (simp add: free_tier_def)
  have l: "length (filter (is_match netflix) (replicate n netflix_feb)) = n" for n
    by (induction n) (simp_all add: netflix_feb_match)
  have l0: "length (filter (is_match netflix) [netflix_jan]) = 0"
    by (simp add: netflix_jan_no_match)
  from status_assignment [of netflix "replicate 6 netflix_feb"] nz cy l [of 6]
  have "res_status (sub_entry (replicate 6 netflix_feb) netflix) = active" by simp
  moreover from status_assignment [of netflix "replicate 5 netflix_feb"] nz cy l [of 5]
  have "res_status (sub_entry (replicate 5 netflix_feb) netflix) = irregular" by simp
  moreover from status_assignment [of netflix "[netflix_jan]"] nz l0
  have "res_status (sub_entry [netflix_jan] netflix) = not_found" by simp
  moreover from status_assignment [of free_tier "[netflix_feb]"] z
  have "res_status (sub_entry [netflix_feb] free_tier) = inactive" by simp
  ultimately show ?thesis by simp
qed

text \<open>
  C10, as stated, fails for a definition whose expected amount is 0: the transaction
  \<open>small_charge\<close> is positive, contains the pattern of \<open>free_tier\<close> and lies within
  its tolerance, but the entry of \<open>free_tier\<close> has no transactions and total 0.
\<close>

theorem zero_amount_definition_counterexample:
  "txn_Amount small_charge > 0 \<and> matchesPattern free_tier small_charge \<and>
   \<bar>double (txn_Amount small_charge - sub_amount free_tier)\<bar> \<le> sub_tolerance free_tier \<and>
   res_transactions (sub_entry [small_charge] free_tier) = [] \<and>
   res_total (sub_entry [small_charge] free_tier) = 0"
proof -
  have c1: "txn_Amount small_charge > 0"
    by (simp add: small_charge_def netflix_charge_def)
  have c2: "matchesPattern free_tier small_charge"
    unfolding small_charge_def by (rule free_tier_matchesPattern)
  have c3: "\<bar>double (txn_Amount small_charge - sub_amount free_tier)\<bar> \<le> sub_tolerance free_tier"
    by (simp add: small_charge_def netflix_charge_def free_tier_def double_1_5)
  have z: "sub_amount free_tier = 0" by (simp add: free_tier_def)
  have c4: "res_transactions (sub_entry [small_charge] free_tier) = []"
    by (simp add: sub_entry_def z)
  have c5: "res_total (sub_entry [small_charge] free_tier) = 0"
    by (simp add: sub_entry_def z)
  show ?thesis using c1 c2 c3 c4 c5 by blast
qed

text \<open>
  C10, amended. Matching is evaluated for each definition on its own over the full
  transaction list: for every two definitions of the catalog whose expected amounts are
  not 0 and every positive transaction whose description contains a pattern of each and
  whose amount lies within both tolerances (the difference taken in double precision),
  both entries are in the result, the transaction is among the transactions of both,
  and the total of each is the rounded sum of the other matches plus this transaction's
  amount. The entry of a definition whose expected amount is 0 has no transactions and
  total 0.
\<close>

theorem matching_per_definition:
  assumes "sub_amount s1 \<noteq> 0" and "sub_amount s2 \<noteq> 0"
    and "s1 \<in> set SUBS" and "s2 \<in> set SUBS"
    and "allTransactions byMonth = xs @ t # ys"
    and "txn_Amount t > 0"
    and "matchesPattern s1 t" and "matchesPattern s2 t"
    and "\<bar>double (txn_Amount t - sub_amount s1)\<bar> \<le> sub_tolerance s1"
    and "\<bar>double (txn_Amount t - sub_amount s2)\<bar> \<le> sub_tolerance s2"
  shows "sub_entry (allTransactions byMonth) s1 \<in> set (getSubscriptions byMonth SUBS) \<and>
         sub_entry (allTransactions byMonth) s2 \<in> set (getSubscriptions byMonth SUBS) \<and>
         t \<in> set (res_transactions (sub_entry (allTransactions byMonth) s1)) \<and>
         t \<in> set (res_transactions (sub_entry (allTransactions byMonth) s2)) \<and>
         res_total (sub_entry (allTransactions byMonth) s1) =
           round_cents (sum_list (map txn_Amount (filter (is_match s1) (xs @ ys))) + txn_Amount t) \<and>
         res_total (sub_entry (allTransactions byMonth) s2) =
           round_cents (sum_list (map txn_Amount (filter (is_match s2) (xs @ ys))) + txn_Amount t) \<and>
         (sub_amount s0 = 0 \<longrightarrow>
            res_transactions (sub_entry txns s0) = [] \<and> res_total (sub_entry txns s0) = 0)"
proof -
  have m1: "is_match s1 t" and m2: "is_match s2 t"
    using assms by (simp_all add: is_match_def Let_def)
  have z: "sub_amount s0 = 0 \<longrightarrow>
            res_transactions (sub_entry txns s0) = [] \<and> res_total (sub_entry txns s0) = 0"
    by (simp add: sub_entry_def)
  show ?thesis
    using assms(1-5) m1 m2 z
    by (simp add: set_getSubscriptions res_transactions_entry res_total_entry ac_simps)
qed


theorem matching_per_definition_witness:
  "netflix_feb \<in> set (res_transactions (sub_entry (allTransactions netflix_byMonth) netflix)) \<and>
   netflix_feb \<in> set (res_transactions (sub_entry (allTransactions netflix_byMonth) streaming_bundle)) \<and>
   sub_entry (allTransactions netflix_byMonth) streaming_bundle
     \<in> set (getSubscriptions netflix_byMonth [netflix, streaming_bundle])"
proof -
  have a: "sub_amount netflix \<noteq> 0" "sub_amount streaming_bundle \<noteq> 0"
    unfolding netflix_amount by (simp_all add: streaming_bundle_def)
  have b: "netflix \<in> set [netflix, streaming_bundle]" "streaming_bundle \<in> set [netflix, streaming_bundle]"
    by simp_all
  have c: "allTransactions netflix_byMonth = [netflix_jan] @ netflix_feb # []"
    by (simp add: netflix_allTransactions)
  have d: "txn_Amount netflix_feb > 0"
    unfolding netflix_feb_amount by simp
  have e: "matchesPattern netflix netflix_feb" "matchesPattern streaming_bundle netflix_feb"
    unfolding netflix_feb_def by (rule netflix_matchesPattern, rule bundle_matchesPattern)
  have f: "\<bar>double (txn_Amount netflix_feb - sub_amount netflix)\<bar> \<le> sub_tolerance netflix"
    unfolding netflix_feb_amount netflix_amount by (simp add: netflix_def double_def)
  have g1: "txn_Amount netflix_feb = double 15.49"
    by (simp only: netflix_feb_def netflix_charge_def txn.simps)
  have g2: "sub_amount streaming_bundle = 15" "sub_tolerance streaming_bundle = 1"
    by (simp_all add: streaming_bundle_def)
  have g: "\<bar>double (txn_Amount netflix_feb - sub_amount streaming_bundle)\<bar>
             \<le> sub_tolerance streaming_bundle"
    unfolding g1 g2 bundle_difference by simp
  from matching_per_definition [OF a b c d e f g] show ?thesis by blast
qed

subsection \<open>Category breakdown: the percent column\<close>

lemma round_dp_1_error: "\<bar>round_dp 1 x - x\<bar> \<le> 1 / 20"
proof -
  have "\<bar>of_int (round_half_even (x * 10)) - x * 10\<bar> \<le> 1 / 2"
    by (rule round_half_even_error)
  then show ?thesis by (simp add: round_dp_def abs_le_iff field_simps)
qed

lemma sum_filter_insert_by:
  "sum_list (map g (filter P (insert_by p x ys)))
     = (if P x then g x else 0) + sum_list (map (g :: 'a \<Rightarrow> real) (filter P ys))"
  by (induction ys) (auto simp: algebra_simps)

lemma sum_filter_sort_by:
  "sum_list (map g (filter P (sort_by p xs))) = sum_list (map (g :: 'a \<Rightarrow> real) (filter P xs))"
  by (induction xs) (auto simp: sort_by_def sum_filter_insert_by)

lemma length_filter_insert_by:
  "length (filter P (insert_by p x ys)) = (if P x then 1 else 0) + length (filter P ys)"
  by (induction ys) auto

lemma length_filter_sort_by:
  "length (filter P (sort_by p xs)) = length (filter P xs)"
  by (induction xs) (auto simp: sort_by_def length_filter_insert_by)

lemma sum_list_abs_diff:
  "(\<And>x. x \<in> set xs \<Longrightarrow> \<bar>f x - g x\<bar> \<le> (c::real)) \<Longrightarrow>
     \<bar>sum_list (map f xs) - sum_list (map g xs)\<bar> \<le> c * real (length xs)"
proof (induction xs)
  case Nil
  then show ?case by simp
next
  case (Cons a xs)
  have 1: "\<bar>f a - g a\<bar> \<le> c" using Cons.prems by simp
  have 2: "\<bar>sum_list (map f xs) - sum_list (map g xs)\<bar> \<le> c * real (length xs)"
    using Cons by simp
  from 1 2 show ?case by (simp add: algebra_simps abs_le_iff)
qed

lemma sum_list_pos: "xs \<noteq> [] \<Longrightarrow> (\<And>x. x \<in> set xs \<Longrightarrow> (0::real) < f x) \<Longrightarrow> 0 < sum_list (map f xs)"
proof (induction xs)
  case Nil
  then show ?case by simp
next
  case (Cons a xs)
  have "0 < f a" using Cons.prems by simp
  moreover have "0 \<le> sum_list (map f xs)"
    using Cons.prems(2) by (intro sum_list_nonneg) (auto intro: less_imp_le)
  ultimately show ?case by simp
qed

lemma sum_list_scaled: "sum_list (map (\<lambda>b. f b / t * 100) xs) = sum_list (map f xs) / (t::real) * 100"
  by (induction xs) (simp_all add: add_divide_distrib ring_distribs)

lemma percent_sum_bound:
  fixes bd0 :: "breakdown_row list"
  defines "pos \<equiv> filter (\<lambda>b. Total b > 0) bd0"
  defines "tp \<equiv> sum_list (map Total pos)"
  assumes ne: "pos \<noteq> []"
  shows "\<bar>sum_list (map (\<lambda>b. fillna 0 (percent_of (Total b) tp)) pos) - 100\<bar>
           \<le> 0.05 * real (length pos)"
proof -
  have tp: "0 < tp" unfolding tp_def using ne by (rule sum_list_pos) (simp add: pos_def)
  have "sum_list (map (\<lambda>b. Total b / tp * 100) pos) = sum_list (map Total pos) / tp * 100"
    by (rule sum_list_scaled)
  also have "\<dots> = 100" using tp by (simp add: tp_def)
  finally have e: "sum_list (map (\<lambda>b. Total b / tp * 100) pos) = 100" .
  have "\<bar>sum_list (map (\<lambda>b. fillna 0 (percent_of (Total b) tp)) pos)
          - sum_list (map (\<lambda>b. Total b / tp * 100) pos)\<bar> \<le> (1 / 20) * real (length pos)"
  proof (rule sum_list_abs_diff)
    fix x
    show "\<bar>fillna 0 (percent_of (Total x) tp) - Total x / tp * 100\<bar> \<le> 1 / 20"
      using tp round_dp_1_error [of "Total x / tp * 100"]
      by (simp add: percent_of_def fillna_def)
  qed
  with e show ?thesis by simp
qed

lemma breakdown_unfold:
  "category_breakdown df po =
     sort_by (\<lambda>a b. Total a > Total b)
       (map (\<lambda>b. b\<lparr>Percent := percent_of (Total b)
                (sum_list (map Total (filter (\<lambda>b. Total b > 0)
                  (category_groups (if po then filter amount_gt0 df else df)))))\<rparr>)
          (category_groups (if po then filter amount_gt0 df else df)))"
  by (simp add: category_breakdown_def Let_def)

lemma filter_pos_map_percent:
  "filter (\<lambda>b. Total b > 0) (map (\<lambda>b. b\<lparr>Percent := h b\<rparr>) xs)
     = map (\<lambda>b. b\<lparr>Percent := h b\<rparr>) (filter (\<lambda>b. Total b > 0) xs)"
  by (induction xs) auto

lemma positive_totals_breakdown:
  "sum_list (map Total (filter (\<lambda>b. Total b > 0) (category_breakdown df po)))
     = sum_list (map Total (filter (\<lambda>b. Total b > 0)
         (category_groups (if po then filter amount_gt0 df else df))))"
  by (simp add: breakdown_unfold sum_filter_sort_by filter_pos_map_percent comp_def)

lemma positive_count_breakdown:
  "length (filter (\<lambda>b. Total b > 0) (category_breakdown df po))
     = length (filter (\<lambda>b. Total b > 0)
         (category_groups (if po then filter amount_gt0 df else df)))"
  by (simp add: breakdown_unfold length_filter_sort_by filter_pos_map_percent)

lemma six_percents:
  "map Percent (category_breakdown six_categories True)
     = [Some 16.7, Some 16.7, Some 16.7, Some 16.7, Some 16.7, Some 16.7]"
  by code_simp

lemma six_totals:
  "map Total (category_breakdown six_categories True) = [1, 1, 1, 1, 1, 1]"
  by code_simp

text \<open>
  C9, as stated, fails: with one purchase of 1.00 in each of six categories every
  percent is 100/6 rounded to one decimal, 16.7, and the six sum to 100.2, which is
  0.2 away from 100.
\<close>

theorem six_equal_categories: "positive_percent_sum (category_breakdown six_categories True) = 100.2"
  by code_simp


text \<open>
  C9, amended. For every category breakdown with at least one category of positive
  total, the sum of the percent column over the categories with positive totals is
  within 0.05 times the number of those categories of 100 (each percent is rounded to
  one decimal on its own), and the percent of every category is its total divided by
  the sum of the positive totals only, times 100, rounded to one decimal.
\<close>

theorem percent_sum_within_rounding:
  assumes "filter (\<lambda>b. Total b > 0) (category_breakdown df po) \<noteq> []"
  shows "\<bar>positive_percent_sum (category_breakdown df po) - 100\<bar>
           \<le> 0.05 * real (length (filter (\<lambda>b. Total b > 0) (category_breakdown df po))) \<and>
         (\<forall>b \<in> set (category_breakdown df po).
            Percent b = Some (round_dp 1 (Total b /
              sum_list (map Total (filter (\<lambda>b. Total b > 0) (category_breakdown df po))) * 100)))"
proof
  let ?g = "category_groups (if po then filter amount_gt0 df else df)"
  let ?pos = "filter (\<lambda>b. Total b > 0) ?g"
  let ?tp = "sum_list (map Total ?pos)"
  have "length (filter (\<lambda>b. Total b > 0) (category_breakdown df po)) \<noteq> 0"
    using assms by simp
  then have ne: "?pos \<noteq> []" by (simp add: positive_count_breakdown)
  have s: "positive_percent_sum (category_breakdown df po)
      = sum_list (map (\<lambda>b. fillna 0 (percent_of (Total b) ?tp)) ?pos)"
    by (simp add: positive_percent_sum_def breakdown_unfold sum_filter_sort_by
        filter_pos_map_percent comp_def)
  from percent_sum_bound [OF ne] s
  show "\<bar>positive_percent_sum (category_breakdown df po) - 100\<bar>
           \<le> 0.05 * real (length (filter (\<lambda>b. Total b > 0) (category_breakdown df po)))"
    by (simp add: positive_count_breakdown)
  have tp: "0 < ?tp" using ne by (intro sum_list_pos) simp_all
  show "\<forall>b \<in> set (category_breakdown df po).
            Percent b = Some (round_dp 1 (Total b /
              sum_list (map Total (filter (\<lambda>b. Total b > 0) (category_breakdown df po))) * 100))"
    unfolding positive_totals_breakdown
    using tp by (auto simp: breakdown_unfold set_sort_by percent_of_def)
qed

theorem percent_sum_within_rounding_witness:
  "\<bar>positive_percent_sum (category_breakdown three_categories True) - 100\<bar> \<le> 0.15"
proof -
  have ne: "filter (\<lambda>b. Total b > 0) (category_breakdown three_categories True) \<noteq> []"
    by code_simp
  have n: "length (filter (\<lambda>b. Total b > 0) (category_breakdown three_categories True)) = 3"
    by code_simp
  from percent_sum_within_rounding [OF ne] n show ?thesis by simp
qed

subsection \<open>Recurring charges: the boundary\<close>

lemma distinct_group_keys: "distinct (group_keys ks)"
  by (simp add: group_keys_def)

lemma set_group_keys: "set (group_keys ks) = {k. Some k \<in> set ks}"
  by (auto simp: group_keys_def split: option.splits)

lemma distinct_months_iff:
  "m \<in> distinct_months df d \<longleftrightarrow> (\<exists>r \<in> set df. merchant_month r = Some (d, m))"
  unfolding distinct_months_def
  by (induction df) (auto split: option.splits simp: prod_eq_iff)

lemma month_key_iff:
  "k \<in> set (group_keys (map merchant_month df)) \<longleftrightarrow> (\<exists>r \<in> set df. merchant_month r = Some k)"
  by (force simp: set_group_keys image_iff)

lemma monthly_merchant_keys:
  "map fst (monthly_merchant df) = group_keys (map merchant_month df)"
  by (simp add: monthly_merchant_def comp_def)

lemma merchant_frequency_descriptions:
  "map mf_Description (merchant_frequency df)
     = group_keys (map (\<lambda>(k, a). Some (fst k)) (monthly_merchant df))"
  by (simp add: merchant_frequency_def Let_def comp_def)

lemma distinct_descriptions: "distinct (map mf_Description (merchant_frequency df))"
  by (simp add: merchant_frequency_descriptions distinct_group_keys)

lemma same_description:
  assumes "m \<in> set (merchant_frequency df)" and "m' \<in> set (merchant_frequency df)"
    and "mf_Description m' = mf_Description m"
  shows "m' = m"
  using distinct_descriptions [of df] assms
  by (auto simp: distinct_map inj_on_def)

lemma months_present_length:
  assumes "m \<in> set (merchant_frequency df)"
  shows "Months_Present m
     = length (filter (\<lambda>k. fst k = mf_Description m) (group_keys (map merchant_month df)))"
  using assms
  by (auto simp: merchant_frequency_def Let_def monthly_merchant_keys [symmetric] filter_map
      case_prod_unfold comp_def)

lemma months_present_card:
  assumes "m \<in> set (merchant_frequency df)"
  shows "Months_Present m = card (distinct_months df (mf_Description m))"
proof -
  let ?d = "mf_Description m"
  let ?keys = "group_keys (map merchant_month df)"
  have "Months_Present m = length (filter (\<lambda>k. fst k = ?d) ?keys)"
    using assms by (rule months_present_length)
  also have "\<dots> = card ({k. fst k = ?d} \<inter> set ?keys)"
    by (simp add: distinct_length_filter distinct_group_keys)
  also have "{k. fst k = ?d} \<inter> set ?keys = Pair ?d ` distinct_months df ?d"
  proof (rule set_eqI)
    fix k :: "string \<times> int \<times> int"
    obtain d' mo where k: "k = (d', mo)" by (cases k)
    have "(d', mo) \<in> Pair ?d ` distinct_months df ?d \<longleftrightarrow> d' = ?d \<and> mo \<in> distinct_months df ?d"
      by blast
    also have "\<dots> \<longleftrightarrow> d' = ?d \<and> (\<exists>r \<in> set df. merchant_month r = Some (d', mo))"
      by (simp only: distinct_months_iff) blast
    also have "\<dots> \<longleftrightarrow> (d', mo) \<in> {k. fst k = ?d} \<inter> set ?keys"
      by (simp only: Int_iff mem_Collect_eq fst_conv month_key_iff)
    finally show "k \<in> {k. fst k = ?d} \<inter> set ?keys \<longleftrightarrow> k \<in> Pair ?d ` distinct_months df ?d"
      unfolding k by simp
  qed
  also have "card (Pair ?d ` distinct_months df ?d) = card (distinct_months df ?d)"
    by (intro card_image) (simp add: inj_on_def)
  finally show ?thesis .
qed

lemma recurring_descriptions:
  "mf_Description ` set (find_recurring_charges df th)
     = mf_Description ` {m \<in> set (merchant_frequency df). is_recurring th m}"
  by (auto simp: find_recurring_charges_def set_sort_by image_iff)

lemma monthly_credit_frequency:
  "merchant_frequency monthly_credit
     = [\<lparr>mf_Description = ''CASHBACK'', Months_Present = 2, Avg_Amount = -10, Std_Amount = Some 0\<rparr>]"
  by (simp add: merchant_frequency_def monthly_merchant_def group_keys_def merchant_month_def
      monthly_credit_def monthly_charge_def to_period_M_def col_sum_def present_def mean_def
      std_def Let_def)

text \<open>
  C5, as stated, fails in its second half: a merchant that credits 10.00 in each of
  exactly two months has standard deviation 0 over its monthly amounts and mean -10;
  the test 0 < mean * 0.2 is false and the merchant is not flagged.
\<close>

theorem steady_credit_not_flagged:
  "merchant_frequency monthly_credit
     = [\<lparr>mf_Description = ''CASHBACK'', Months_Present = 2, Avg_Amount = -10, Std_Amount = Some 0\<rparr>] \<and>
   find_recurring_charges monthly_credit 2 = []"
  by (simp add: monthly_credit_frequency find_recurring_charges_def is_recurring_def fillna_def
      sort_by_def)

text \<open>
  C5, amended. For every merchant of the detector's frequency table, the months counted
  for it are the distinct calendar months in which it appears; a merchant appearing in
  exactly threshold_months - 1 months is never flagged recurring, and a merchant
  appearing in exactly threshold_months months whose monthly amounts have standard
  deviation 0 (or none) is flagged exactly when the mean of its monthly amounts is
  positive.
\<close>

theorem recurring_boundary:
  assumes "m \<in> set (merchant_frequency df)"
  shows "Months_Present m = card (distinct_months df (mf_Description m)) \<and>
     (int (Months_Present m) = threshold_months - 1 \<longrightarrow>
        mf_Description m \<notin> mf_Description ` set (find_recurring_charges df threshold_months)) \<and>
     (int (Months_Present m) = threshold_months \<and> fillna 0 (Std_Amount m) = 0 \<longrightarrow>
        (mf_Description m \<in> mf_Description ` set (find_recurring_charges df threshold_months)
           \<longleftrightarrow> Avg_Amount m > 0))"
proof -
  have mem: "mf_Description m \<in> mf_Description ` set (find_recurring_charges df threshold_months)
      \<longleftrightarrow> is_recurring threshold_months m"
  proof
    assume "mf_Description m \<in> mf_Description ` set (find_recurring_charges df threshold_months)"
    then obtain m' where m': "m' \<in> set (merchant_frequency df)" "is_recurring threshold_months m'"
      "mf_Description m' = mf_Description m"
      unfolding recurring_descriptions by force
    with assms have "m' = m" by (intro same_description)
    with m' show "is_recurring threshold_months m" by simp
  next
    assume "is_recurring threshold_months m"
    with assms show "mf_Description m \<in> mf_Description ` set (find_recurring_charges df threshold_months)"
      unfolding recurring_descriptions by blast
  qed
  have a: "int (Months_Present m) = threshold_months - 1 \<longrightarrow> \<not> is_recurring threshold_months m"
    by (simp add: is_recurring_def)
  have b: "int (Months_Present m) = threshold_months \<and> fillna 0 (Std_Amount m) = 0 \<longrightarrow>
      (is_recurring threshold_months m \<longleftrightarrow> Avg_Amount m > 0)"
    by (auto simp: is_recurring_def)
  from months_present_card [OF assms] mem a b show ?thesis by simp
qed

lemma steady_bill_frequency:
  "merchant_frequency steady_bill
     = [\<lparr>mf_Description = ''ONCE'', Months_Present = 1, Avg_Amount = 30, Std_Amount = None\<rparr>,
        \<lparr>mf_Description = ''WATER CO'', Months_Present = 2, Avg_Amount = 30, Std_Amount = Some 0\<rparr>]"
  by (simp add: merchant_frequency_def monthly_merchant_def group_keys_def merchant_month_def
      steady_bill_def monthly_charge_def to_period_M_def col_sum_def present_def mean_def
      std_def Let_def)

theorem recurring_boundary_witness:
  "''ONCE'' \<notin> mf_Description ` set (find_recurring_charges steady_bill 2) \<and>
   ''WATER CO'' \<in> mf_Description ` set (find_recurring_charges steady_bill 2)"
proof -
  let ?once = "\<lparr>mf_Description = ''ONCE'', Months_Present = 1, Avg_Amount = 30, Std_Amount = None\<rparr>"
  let ?water = "\<lparr>mf_Description = ''WATER CO'', Months_Present = 2, Avg_Amount = 30,
     Std_Amount = Some 0\<rparr>"
  have o: "?once \<in> set (merchant_frequency steady_bill)"
    and w: "?water \<in> set (merchant_frequency steady_bill)"
    by (simp_all add: steady_bill_frequency)
  from recurring_boundary [OF o, of 2]
  have "''ONCE'' \<notin> mf_Description ` set (find_recurring_charges steady_bill 2)" by simp
  moreover from recurring_boundary [OF w, of 2]
  have "''WATER CO'' \<in> mf_Description ` set (find_recurring_charges steady_bill 2)"
    by (simp add: fillna_def)
  ultimately show ?thesis by simp
qed


end
